theory Spec2Isabelle
  imports Main "HOL-Library.Sublist"
begin

section \<open>Python string operations used by the agent\<close>

text \<open>
  Messages are Python \<open>str\<close> values. They are modelled as \<open>string\<close> (a list of
  8-bit characters) read as ASCII text: \<open>str.lower\<close>, \<open>str.isdigit\<close>, \<open>str.isalpha\<close>,
  \<open>str.split\<close> and the regular-expression classes \<open>\\d\<close>, \<open>\\w\<close> are given their meaning
  on ASCII characters.
\<close>

definition ascii_lowercase :: string where
  "ascii_lowercase = ''abcdefghijklmnopqrstuvwxyz''"

definition ascii_uppercase :: string where
  "ascii_uppercase = ''ABCDEFGHIJKLMNOPQRSTUVWXYZ''"

definition digits :: string where
  "digits = ''0123456789''"

definition is_digit :: "char \<Rightarrow> bool" where
  "is_digit c = (c \<in> set digits)"

definition is_alpha :: "char \<Rightarrow> bool" where
  "is_alpha c = (c \<in> set (ascii_lowercase @ ascii_uppercase))"

text \<open>The class \<open>\\w\<close>: letters, digits and the underscore.\<close>

definition is_word_char :: "char \<Rightarrow> bool" where
  "is_word_char c = (is_alpha c \<or> is_digit c \<or> c = CHR ''_'')"

text \<open>The characters \<open>str.split()\<close> and \<open>str.strip()\<close> treat as white space (ASCII).\<close>

definition is_space :: "char \<Rightarrow> bool" where
  "is_space c = (c \<in> set [CHR '' '', CHR 0x09, CHR 0x0A, CHR 0x0B, CHR 0x0C, CHR 0x0D,
                            CHR 0x1C, CHR 0x1D, CHR 0x1E, CHR 0x1F])"

definition lower_char :: "char \<Rightarrow> char" where
  "lower_char c = (case map_of (zip ascii_uppercase ascii_lowercase) c of
                     Some d \<Rightarrow> d | None \<Rightarrow> c)"

text \<open>\<open>s.lower()\<close>\<close>

definition lower :: "string \<Rightarrow> string" where
  "lower s = map lower_char s"

text \<open>\<open>kw in s\<close>: \<open>kw\<close> occurs in \<open>s\<close> as a contiguous substring.\<close>

fun contains :: "string \<Rightarrow> string \<Rightarrow> bool" where
  "contains kw [] = (kw = [])"
| "contains kw (c # cs) = (prefix kw (c # cs) \<or> contains kw cs)"

text \<open>\<open>s.find(kw)\<close> for a \<open>kw\<close> that occurs in \<open>s\<close>: the index of its first occurrence.\<close>

fun find_index :: "string \<Rightarrow> string \<Rightarrow> nat" where
  "find_index kw [] = 0"
| "find_index kw (c # cs) = (if prefix kw (c # cs) then 0 else Suc (find_index kw cs))"

text \<open>\<open>s.split()\<close>: the maximal runs of characters that are not white space.\<close>

fun split_from :: "string \<Rightarrow> string \<Rightarrow> string list" where
  "split_from cur [] = (if cur = [] then [] else [rev cur])"
| "split_from cur (c # cs) =
     (if is_space c then (if cur = [] then split_from [] cs else rev cur # split_from [] cs)
      else split_from (c # cur) cs)"

definition split :: "string \<Rightarrow> string list" where
  "split s = split_from [] s"

text \<open>\<open>s.isdigit()\<close> and \<open>s.isalpha()\<close>: not empty, and every character in the class.\<close>

definition isdigit :: "string \<Rightarrow> bool" where
  "isdigit s = (s \<noteq> [] \<and> list_all is_digit s)"

definition isalpha :: "string \<Rightarrow> bool" where
  "isalpha s = (s \<noteq> [] \<and> list_all is_alpha s)"

text \<open>\<open>s.strip(chars)\<close>\<close>

definition strip_chars :: "string \<Rightarrow> string \<Rightarrow> string" where
  "strip_chars chars s =
     rev (dropWhile (\<lambda>c. c \<in> set chars) (rev (dropWhile (\<lambda>c. c \<in> set chars) s)))"

text \<open>\<open>s.replace(c, '')\<close> for a single character \<open>c\<close>\<close>

definition remove_char :: "char \<Rightarrow> string \<Rightarrow> string" where
  "remove_char c s = filter (\<lambda>d. d \<noteq> c) s"

text \<open>\<open>sep.join(ws)\<close>\<close>

fun join :: "string \<Rightarrow> string list \<Rightarrow> string" where
  "join sep [] = []"
| "join sep [w] = w"
| "join sep (w # ws) = w @ sep @ join sep ws"

text \<open>\<open>sum(1 for kw in kws if kw in s)\<close>\<close>

definition count_keywords :: "string list \<Rightarrow> string \<Rightarrow> nat" where
  "count_keywords kws s = length (filter (\<lambda>kw. contains kw s) kws)"

section \<open>Regular expressions of the entity extractor\<close>

text \<open>
  \<open>re.findall(r'\\b\\d{6,}\\b', message)\<close>. A match starts at a word boundary, takes digits
  greedily and must end at a word boundary. A shorter run of digits ends between two
  digits, where there is no boundary, so a match is a maximal run of at least six digits
  with no word character on either side. The flag tells whether the character before
  the current position is a word character. After a match the search resumes behind it.
\<close>

function account_findall :: "bool \<Rightarrow> string \<Rightarrow> string list" where
  "account_findall pw [] = []"
| "account_findall pw (c # cs) =
     (if \<not> pw \<and> 6 \<le> length (takeWhile is_digit (c # cs)) \<and>
         (case dropWhile is_digit (c # cs) of [] \<Rightarrow> True | d # _ \<Rightarrow> \<not> is_word_char d)
      then takeWhile is_digit (c # cs) # account_findall True (dropWhile is_digit (c # cs))
      else account_findall (is_word_char c) cs)"
  by pat_completeness auto
termination
proof (relation "measure (\<lambda>(pw, s). length s)")
  fix pw :: bool and c :: char and cs :: string
  assume "\<not> pw \<and> 6 \<le> length (takeWhile is_digit (c # cs)) \<and>
         (case dropWhile is_digit (c # cs) of [] \<Rightarrow> True | d # _ \<Rightarrow> \<not> is_word_char d)"
  then have "is_digit c" by (cases "is_digit c") auto
  then have "length (dropWhile is_digit (c # cs)) \<le> length cs"
    by (simp add: length_dropWhile_le)
  then show "((True, dropWhile is_digit (c # cs)), (pw, c # cs)) \<in> measure (\<lambda>(pw, s). length s)"
    by simp
qed auto

text \<open>
  \<open>re.findall\<close> for a pattern that never matches the empty string: \<open>m pw s\<close> is the
  length of the match that starts at the head of \<open>s\<close>, if there is one.
\<close>

fun findall :: "(bool \<Rightarrow> string \<Rightarrow> nat option) \<Rightarrow> bool \<Rightarrow> string \<Rightarrow> string list" where
  "findall m pw [] = []"
| "findall m pw (c # cs) =
     (case m pw (c # cs) of
        Some n \<Rightarrow> take n (c # cs) # findall m (is_word_char (last (c # take (n - 1) cs))) (drop (n - 1) cs)
      | None \<Rightarrow> findall m (is_word_char c) cs)"

text \<open>\<open>\\b\<close> behind the first \<open>n\<close> characters of \<open>s\<close>, for \<open>0 < n \<le> length s\<close>.\<close>

definition boundary_after :: "string \<Rightarrow> nat \<Rightarrow> bool" where
  "boundary_after s n =
     (is_word_char (s ! (n - 1)) \<noteq> (n < length s \<and> is_word_char (s ! n)))"

text \<open>\<open>\\d{n}\<close> at the head of \<open>s\<close>: the rest of \<open>s\<close> behind \<open>n\<close> digits.\<close>

fun exact_digits :: "nat \<Rightarrow> string \<Rightarrow> string option" where
  "exact_digits 0 s = Some s"
| "exact_digits (Suc n) [] = None"
| "exact_digits (Suc n) (c # cs) = (if is_digit c then exact_digits n cs else None)"

text \<open>
  \<open>[-.]?\<close> takes a separator when there is one; without it the next \<open>\\d\<close> would have
  to match the separator, so there is nothing to backtrack to.
\<close>

definition optional_sep :: "string \<Rightarrow> string" where
  "optional_sep s = (case s of [] \<Rightarrow> [] | c # cs \<Rightarrow> if c = CHR ''-'' \<or> c = CHR ''.'' then cs else c # cs)"

text \<open>The phone pattern \<open>\\b\\d{3}[-.]?\\d{3}[-.]?\\d{4}\\b\<close>.\<close>

definition phone_match :: "bool \<Rightarrow> string \<Rightarrow> nat option" where
  "phone_match pw s =
     (if pw then None else
      Option.bind (exact_digits 3 s) (\<lambda>s1.
      Option.bind (exact_digits 3 (optional_sep s1)) (\<lambda>s2.
      Option.bind (exact_digits 4 (optional_sep s2)) (\<lambda>s3.
      if boundary_after s (length s - length s3) then Some (length s - length s3) else None))))"

text \<open>
  The e-mail pattern \<open>\\b[A-Za-z0-9._%+-]+@[A-Za-z0-9.-]+\\.[A-Z|a-z]{2,}\\b\<close>.
  The local part is the whole run of its class (\<open>@\<close> is not in the class). The domain and
  the last part are greedy: the engine tries the longest domain first, that is the last
  dot of the run, and for each dot the longest last part that ends at a word boundary.
\<close>

definition is_local_char :: "char \<Rightarrow> bool" where
  "is_local_char c = (is_alpha c \<or> is_digit c \<or> c \<in> set ''._%+-'')"

definition is_domain_char :: "char \<Rightarrow> bool" where
  "is_domain_char c = (is_alpha c \<or> is_digit c \<or> c \<in> set ''.-'')"

definition is_tld_char :: "char \<Rightarrow> bool" where
  "is_tld_char c = (is_alpha c \<or> c = CHR ''|'')"

fun tld_try :: "string \<Rightarrow> nat \<Rightarrow> nat option" where
  "tld_try r 0 = None"
| "tld_try r (Suc n) =
     (if Suc n < 2 then None
      else if boundary_after r (Suc n) then Some (Suc n)
      else tld_try r n)"

fun domain_try :: "string \<Rightarrow> nat \<Rightarrow> nat option" where
  "domain_try r 0 = None"
| "domain_try r (Suc d) =
     (if Suc d < length r \<and> r ! Suc d = CHR ''.'' then
        (case tld_try (drop (Suc (Suc d)) r) (length (takeWhile is_tld_char (drop (Suc (Suc d)) r))) of
           Some n \<Rightarrow> Some (Suc (Suc d) + n)
         | None \<Rightarrow> domain_try r d)
      else domain_try r d)"

definition email_match :: "bool \<Rightarrow> string \<Rightarrow> nat option" where
  "email_match pw s =
     (let a = length (takeWhile is_local_char s); r = drop (Suc a) s in
      if s = [] \<or> pw = is_word_char (hd s) \<or> a = 0 then None
      else if \<not> (a < length s \<and> s ! a = CHR ''@'') then None
      else case domain_try r (length (takeWhile is_domain_char r) - 1) of
             Some n \<Rightarrow> Some (Suc a + n)
           | None \<Rightarrow> None)"

section \<open>Confidence scores\<close>

text \<open>
  Scores are Python floats (IEEE 754 doubles): a keyword count times a weight literal.
  Every value that occurs is a multiple of \<open>2\<^sup>-\<^sup>5\<^sup>6\<close>, so a score is modelled exactly, as
  the integer number of such units. \<open>float_mul k w\<close> is the product \<open>k * w\<close> of an
  integer count and a double, rounded to 53 significant bits, ties to even.
\<close>

type_synonym score = int

function bit_length :: "int \<Rightarrow> nat" where
  "bit_length n = (if n \<le> 0 then 0 else Suc (bit_length (n div 2)))"
  by pat_completeness auto
termination
  by (relation "measure nat") auto

declare bit_length.simps [simp del]

definition round_to_53 :: "int \<Rightarrow> int" where
  "round_to_53 n =
     (let s = bit_length n - 53; q = n div 2 ^ s; r = n mod 2 ^ s in
      if s = 0 then n
      else (if 2 ^ s < 2 * r \<or> (2 * r = 2 ^ s \<and> odd q) then q + 1 else q) * 2 ^ s)"

definition float_mul :: "nat \<Rightarrow> score \<Rightarrow> score" where
  "float_mul k w = round_to_53 (int k * w)"

text \<open>The literals \<open>0.1\<close>, \<open>0.2\<close>, \<open>0.3\<close>, \<open>0.35\<close>, \<open>0.4\<close>, \<open>0.5\<close>, \<open>0.8\<close> as doubles.\<close>

definition f_0_1 :: score where "f_0_1 = 7205759403792794"
definition f_0_2 :: score where "f_0_2 = 14411518807585588"
definition f_0_3 :: score where "f_0_3 = 21617278211378380"
definition f_0_35 :: score where "f_0_35 = 25220157913274776"
definition f_0_4 :: score where "f_0_4 = 28823037615171176"
definition f_0_5 :: score where "f_0_5 = 36028797018963968"
definition f_0_8 :: score where "f_0_8 = 57646075230342352"

section \<open>Intent analysis (\<open>NANOAgent._analyze_intent\<close>)\<close>

text \<open>
  The \<open>entities\<close> dictionary has the keys \<open>account_number\<close>, \<open>update_field\<close>,
  \<open>new_email\<close> and \<open>new_phone\<close>; an absent key is \<open>None\<close>. The fields carry the
  prefix \<open>e_\<close> to keep them apart from the columns of the customer table.
\<close>

record entities =
  e_account_number :: "string option"
  e_update_field :: "string option"
  e_new_email :: "string option"
  e_new_phone :: "string option"

definition no_entities :: entities where
  "no_entities = \<lparr>e_account_number = None, e_update_field = None, e_new_email = None,
                  e_new_phone = None\<rparr>"

record intent_analysis =
  primary_intent :: string
  confidence :: score
  all_intents :: "(string \<times> score) list"
  entities :: entities

definition identity_keywords :: "string list" where
  "identity_keywords = [''verify'', ''identity'', ''login'', ''authenticate'', ''who am i'', ''my name'']"

definition balance_keywords :: "string list" where
  "balance_keywords = [''balance'', ''how much'', ''account total'', ''money'', ''funds'',
     ''available'', ''checking'', ''savings'']"

definition transaction_keywords :: "string list" where
  "transaction_keywords = [''history'', ''transactions'', ''recent'', ''statements'', ''spent'',
     ''charges'', ''deposits'', ''withdrawals'', ''activity'']"

definition update_keywords :: "string list" where
  "update_keywords = [''update'', ''change'', ''modify'', ''new'', ''correct'']"

definition contact_keywords :: "string list" where
  "contact_keywords = [''address'', ''phone'', ''email'', ''number'', ''contact'']"

definition file_keywords :: "string list" where
  "file_keywords = [''upload'', ''document'', ''file'', ''statement'', ''download'', ''pdf'',
     ''attachment'', ''scan'', ''image'', ''photo'']"

definition ocr_keywords :: "string list" where
  "ocr_keywords = [''read'', ''extract'', ''text'', ''ocr'', ''analyze'', ''check'', ''receipt'']"

definition help_keywords :: "string list" where
  "help_keywords = [''help'', ''how'', ''what'', ''explain'', ''support'', ''assist'', ''can you'']"

definition escalation_keywords :: "string list" where
  "escalation_keywords = [''human'', ''representative'', ''manager'', ''escalate'', ''complain'',
     ''supervisor'', ''agent'', ''person'', ''speak to'']"

definition greeting_keywords :: "string list" where
  "greeting_keywords = [''hello'', ''hi'', ''good morning'', ''good afternoon'', ''good evening'',
     ''hey'', ''greetings'']"

text \<open>
  The candidate list, in the order in which the source appends to \<open>intents\<close>
  (before the sort).
\<close>

definition candidate_intents :: "string \<Rightarrow> (string \<times> score) list" where
  "candidate_intents message =
     (let message_lower = lower message;
          identity_score = count_keywords identity_keywords message_lower;
          account_matches = account_findall False message;
          balance_score = count_keywords balance_keywords message_lower;
          transaction_score = count_keywords transaction_keywords message_lower;
          update_score = count_keywords update_keywords message_lower;
          contact_score = count_keywords contact_keywords message_lower;
          file_score = count_keywords file_keywords message_lower;
          ocr_score = count_keywords ocr_keywords message_lower;
          help_score = count_keywords help_keywords message_lower;
          escalation_score = count_keywords escalation_keywords message_lower
      in (if 0 < identity_score then [(''identity_verification'', float_mul identity_score f_0_3)] else [])
       @ (if account_matches \<noteq> [] then [(''identity_verification'', f_0_5)] else [])
       @ (if 0 < balance_score then [(''balance_inquiry'', float_mul balance_score f_0_4)] else [])
       @ (if 0 < transaction_score then [(''transaction_history'', float_mul transaction_score f_0_35)] else [])
       @ (if 0 < update_score \<or> 0 < contact_score
          then [(''update_information'', float_mul (update_score + contact_score) f_0_3)] else [])
       @ (if 0 < file_score \<or> 0 < ocr_score
          then (if 0 < ocr_score then [(''document_ocr'', float_mul (file_score + ocr_score) f_0_4)]
                else [(''file_management'', float_mul file_score f_0_35)])
          else [])
       @ (if 0 < help_score then [(''general_support'', float_mul help_score f_0_2)] else [])
       @ (if 0 < escalation_score then [(''escalation'', float_mul escalation_score f_0_5)] else [])
       @ (if list_ex (\<lambda>kw. contains kw message_lower) greeting_keywords
             \<and> length (split message_lower) < 10
          then [(''greeting'', f_0_8)] else []))"

text \<open>
  The entities. A later assignment to \<open>entities['update_field']\<close> overwrites an earlier
  one, so \<open>address\<close> wins over \<open>phone\<close>, and \<open>phone\<close> over \<open>email\<close>.
\<close>

definition extract_entities :: "string \<Rightarrow> entities" where
  "extract_entities message =
     (let message_lower = lower message;
          account_matches = account_findall False message;
          e0 = no_entities\<lparr>e_account_number :=
                 (case account_matches of [] \<Rightarrow> None | a # _ \<Rightarrow> Some a)\<rparr>
      in if 0 < count_keywords update_keywords message_lower
            \<or> 0 < count_keywords contact_keywords message_lower
         then
           (let e1 = (if contains ''email'' message_lower
                      then (case findall email_match False message of
                              [] \<Rightarrow> e0\<lparr>e_update_field := Some ''email''\<rparr>
                            | m # _ \<Rightarrow> e0\<lparr>e_update_field := Some ''email'', e_new_email := Some m\<rparr>)
                      else e0);
                e2 = (if contains ''phone'' message_lower \<or> contains ''number'' message_lower
                      then (case findall phone_match False message of
                              [] \<Rightarrow> e1\<lparr>e_update_field := Some ''phone''\<rparr>
                            | m # _ \<Rightarrow> e1\<lparr>e_update_field := Some ''phone'', e_new_phone := Some m\<rparr>)
                      else e1)
            in if contains ''address'' message_lower then e2\<lparr>e_update_field := Some ''address''\<rparr> else e2)
         else e0)"

text \<open>
  \<open>intents.sort(key=lambda x: x[1], reverse=True)\<close>. A reversed sort in Python reverses
  the list, sorts it with the stable sort, and reverses the result.
\<close>

definition sort_intents :: "(string \<times> score) list \<Rightarrow> (string \<times> score) list" where
  "sort_intents intents = rev (sort_key snd (rev intents))"

definition analyze_intent :: "string \<Rightarrow> intent_analysis" where
  "analyze_intent message =
     (let intents = sort_intents (candidate_intents message) in
      \<lparr>primary_intent = (case intents of [] \<Rightarrow> ''general_inquiry'' | x # _ \<Rightarrow> fst x),
       confidence = (case intents of [] \<Rightarrow> f_0_1 | x # _ \<Rightarrow> snd x),
       all_intents = intents,
       entities = extract_entities message\<rparr>)"

section \<open>The store (\<open>app/database.py\<close>)\<close>

text \<open>
  The tables the agent reads and writes, as lists of rows in insertion order. Times are
  seconds on the clock of \<open>datetime.utcnow()\<close>, which every operation receives as
  \<open>now\<close>. Amounts are floats in the source and are modelled in cents. The audit log is
  written and never read by the agent, and is left out.
\<close>

record customer =
  customer_id :: string
  full_name :: string
  account_number :: string
  email :: string
  phone :: "string option"
  address :: "string option"
  security_question :: string
  security_answer :: string
  account_balance :: int
  account_status :: string
  updated_at :: "int option"
  is_verified :: bool
  login_attempts :: int
  last_login :: "int option"

text \<open>A row of the \<open>sessions\<close> table (the class \<open>Session\<close> of \<open>app/database.py\<close>).\<close>

record db_session =
  ds_session_id :: string
  ds_customer_id :: "string option"
  ds_is_verified :: bool
  ds_created_at :: int
  ds_last_activity :: int
  ds_status :: string

text \<open>
  The column \<open>extra_data\<close> of a conversation row holds the JSON text of the metadata
  of an assistant message; it is kept as the record that the text encodes.
\<close>

record metadata =
  m_intent :: string
  m_tools_used :: "string list"
  m_requires_verification :: bool
  m_verified :: bool

record conversation =
  c_session_id :: string
  c_customer_id :: "string option"
  c_role :: string
  c_message :: string
  c_created_at :: int
  c_extra_data :: "metadata option"

record database =
  customers :: "customer list"
  sessions :: "db_session list"
  conversations :: "conversation list"

text \<open>\<open>query.filter(...).first()\<close> is \<open>find\<close>. A change to the row it returned:\<close>

fun update_first :: "('a \<Rightarrow> bool) \<Rightarrow> ('a \<Rightarrow> 'a) \<Rightarrow> 'a list \<Rightarrow> 'a list" where
  "update_first P f [] = []"
| "update_first P f (x # xs) = (if P x then f x # xs else x # update_first P f xs)"

section \<open>Identity verification (\<open>nano/tools/identity.py\<close>)\<close>

text \<open>
  The SQL operator \<open>LIKE\<close>: \<open>%\<close> matches any sequence of characters and \<open>_\<close> any one
  character; there is no escape character.
\<close>

fun like_match :: "string \<Rightarrow> string \<Rightarrow> bool" where
  "like_match [] s = (s = [])"
| "like_match (p # ps) [] = (p = CHR ''%'' \<and> like_match ps [])"
| "like_match (p # ps) (c # cs) =
     (if p = CHR ''%'' then like_match ps (c # cs) \<or> like_match (p # ps) cs
      else (p = CHR ''_'' \<or> p = c) \<and> like_match ps cs)"

text \<open>\<open>column.ilike(pattern)\<close>: \<open>lower(column) LIKE lower(pattern)\<close>\<close>

definition ilike :: "string \<Rightarrow> string \<Rightarrow> bool" where
  "ilike text pattern = like_match (lower pattern) (lower text)"

text \<open>
  The query of \<open>verify_customer_identity\<close>:
  \<open>filter(Customer.account_number == account_number,
   Customer.full_name.ilike(f"%{full_name}%")).first()\<close>
\<close>

definition matches_customer :: "string \<Rightarrow> string \<Rightarrow> customer \<Rightarrow> bool" where
  "matches_customer name acc c =
     (account_number c = acc \<and> ilike (full_name c) (''%'' @ name @ ''%''))"

definition find_customer :: "database \<Rightarrow> string \<Rightarrow> string \<Rightarrow> customer option" where
  "find_customer db name acc = find (matches_customer name acc) (customers db)"

text \<open>\<open>s.strip()\<close>\<close>

definition strip :: "string \<Rightarrow> string" where
  "strip s = rev (dropWhile is_space (rev (dropWhile is_space s)))"

definition verify_security_answer :: "string \<Rightarrow> string \<Rightarrow> bool" where
  "verify_security_answer stored_answer provided_answer =
     (strip (lower stored_answer) = strip (lower provided_answer))"

text \<open>The dictionary \<open>verify_customer_identity\<close> returns; an absent key is \<open>None\<close>.\<close>

record verification =
  verified :: bool
  message :: string
  requires_security_question :: "bool option"
  v_customer_id :: "string option"
  remaining_attempts :: "int option"
  customer_name :: "string option"

definition verification_failure :: "string \<Rightarrow> verification" where
  "verification_failure msg =
     \<lparr>verified = False, message = msg, requires_security_question = Some False,
      v_customer_id = None, remaining_attempts = None, customer_name = None\<rparr>"

text \<open>
  \<open>verify_customer_identity(session_id, full_name, account_number, security_answer)\<close>
  returns its dictionary and leaves the store changed. Every \<open>UPDATE\<close> of a customer row
  sets \<open>updated_at\<close> (the column has \<open>onupdate=func.now()\<close>).
\<close>

definition verify_customer_identity ::
  "database \<Rightarrow> int \<Rightarrow> string \<Rightarrow> string \<Rightarrow> string \<Rightarrow> string option \<Rightarrow> verification \<times> database" where
  "verify_customer_identity db now session_id name acc answer =
     (case find_customer db name acc of
        None \<Rightarrow>
          (verification_failure
             ''Customer information not found. Please check your details or visit a branch.'', db)
      | Some c \<Rightarrow>
          if account_status c \<noteq> ''active'' then
            (verification_failure ''Account is not active. Please contact customer service.'', db)
          else if 3 \<le> login_attempts c then
            (verification_failure ''Too many failed verification attempts. Please visit a branch.'', db)
          else if answer = None \<or> answer = Some [] then
            (\<lparr>verified = False,
              message = ''Please answer your security question: '' @ security_question c,
              requires_security_question = Some True,
              v_customer_id = Some (customer_id c),
              remaining_attempts = None, customer_name = None\<rparr>, db)
          else if \<not> verify_security_answer (security_answer c) (the answer) then
            (\<lparr>verified = False,
              message = ''Incorrect security answer. Please try again.'',
              requires_security_question = Some True,
              v_customer_id = None,
              remaining_attempts = Some (3 - (login_attempts c + 1)),
              customer_name = None\<rparr>,
             db\<lparr>customers := update_first (matches_customer name acc)
                    (\<lambda>c. c\<lparr>login_attempts := login_attempts c + 1, updated_at := Some now\<rparr>)
                    (customers db)\<rparr>)
          else
            (\<lparr>verified = True,
              message = ''Identity verified successfully. Welcome, '' @ full_name c @ ''!'',
              requires_security_question = None,
              v_customer_id = Some (customer_id c),
              remaining_attempts = None,
              customer_name = Some (full_name c)\<rparr>,
             db\<lparr>customers := update_first (matches_customer name acc)
                    (\<lambda>c. c\<lparr>login_attempts := 0, last_login := Some now, is_verified := True,
                            updated_at := Some now\<rparr>)
                    (customers db),
                sessions := update_first (\<lambda>s. ds_session_id s = session_id)
                    (\<lambda>s. s\<lparr>ds_customer_id := Some (customer_id c), ds_is_verified := True,
                            ds_last_activity := now\<rparr>)
                    (sessions db)\<rparr>))"

section \<open>Record operations (\<open>nano/tools/database.py\<close>)\<close>

definition updatable_fields :: "string list" where
  "updatable_fields = [''email'', ''phone'', ''address'']"

text \<open>\<open>setattr(customer, field, value)\<close> for an updatable field\<close>

definition set_field :: "string \<Rightarrow> string \<Rightarrow> customer \<Rightarrow> customer" where
  "set_field field v c =
     (if field = ''email'' then c\<lparr>email := v\<rparr>
      else if field = ''phone'' then c\<lparr>phone := Some v\<rparr>
      else if field = ''address'' then c\<lparr>address := Some v\<rparr>
      else c)"

text \<open>
  The loop over \<open>updates.items()\<close>: the customer with the new values, and the fields that
  were set (the source keeps a description of each in \<open>updated_fields\<close>).
\<close>

fun apply_updates :: "(string \<times> string) list \<Rightarrow> customer \<Rightarrow> customer \<times> string list" where
  "apply_updates [] c = (c, [])"
| "apply_updates ((field, v) # rest) c =
     (if field \<in> set updatable_fields
      then (case apply_updates rest (set_field field v c) of (c', fs) \<Rightarrow> (c', field # fs))
      else apply_updates rest c)"

record update_result =
  success :: bool
  u_message :: string
  updated_fields :: "string list option"
  u_customer_name :: "string option"

definition update_failure :: "string \<Rightarrow> update_result" where
  "update_failure msg =
     \<lparr>success = False, u_message = msg, updated_fields = None, u_customer_name = None\<rparr>"

text \<open>
  \<open>update_customer_record(session_id, customer_id, updates)\<close>. The column \<open>email\<close> is
  unique: a commit that would give two rows the same e-mail address raises, the
  \<open>except\<close> branch rolls the change back and reports the failure (with the text of the
  database error, which is abbreviated here).
\<close>

definition update_customer_record ::
  "database \<Rightarrow> int \<Rightarrow> string \<Rightarrow> (string \<times> string) list \<Rightarrow> update_result \<times> database" where
  "update_customer_record db now cid updates =
     (case find (\<lambda>c. customer_id c = cid) (customers db) of
        None \<Rightarrow> (update_failure ''Customer not found'', db)
      | Some c \<Rightarrow>
          (case apply_updates updates c of (c', fs) \<Rightarrow>
             if fs = [] then (update_failure ''No valid fields to update'', db)
             else if email c' \<noteq> email c \<and> email c' \<in> set (map email (customers db))
             then (update_failure ''Update failed: UNIQUE constraint failed: customers.email'', db)
             else
               (\<lparr>success = True, u_message = ''Customer record updated successfully'',
                 updated_fields = Some (map fst updates),
                 u_customer_name = Some (full_name c')\<rparr>,
                db\<lparr>customers := update_first (\<lambda>c. customer_id c = cid)
                       (\<lambda>_. c'\<lparr>updated_at := Some now\<rparr>) (customers db)\<rparr>)))"

text \<open>
  \<open>query_account_balance\<close>: the balance of the active customer with this identifier,
  \<open>None\<close> when there is none ("Customer account not found or inactive").
\<close>

definition query_account_balance :: "database \<Rightarrow> string \<Rightarrow> int option" where
  "query_account_balance db cid =
     map_option account_balance
       (find (\<lambda>c. customer_id c = cid \<and> account_status c = ''active'') (customers db))"

function show_nat :: "nat \<Rightarrow> string" where
  "show_nat n = (if n < 10 then [digits ! n] else show_nat (n div 10) @ [digits ! (n mod 10)])"
  by pat_completeness auto
termination
  by (relation "measure id") auto

declare show_nat.simps [simp del]

text \<open>\<open>f"{x:.2f}"\<close> for an amount of \<open>c\<close> cents\<close>

definition format_2f :: "int \<Rightarrow> string" where
  "format_2f c =
     (if c < 0 then ''-'' else []) @ show_nat (nat \<bar>c\<bar> div 100) @ ''.''
       @ [digits ! (nat \<bar>c\<bar> mod 100 div 10), digits ! (nat \<bar>c\<bar> mod 10)]"

section \<open>The agent (\<open>nano/agent.py\<close>)\<close>

text \<open>
  An entry of the conversation history, the in-memory session dictionary (an absent key
  is \<open>None\<close>, or \<open>False\<close> for the flag \<open>awaiting_security_answer\<close>, which the source
  reads with \<open>session.get\<close>), and the dictionary \<open>process_message\<close> returns.
\<close>

record turn =
  t_role :: string
  t_message :: string
  t_timestamp :: int

record session =
  s_created_at :: int
  s_customer_id :: "string option"
  s_is_verified :: bool
  s_last_activity :: "int option"
  conversation_history :: "turn list"
  awaiting_security_answer :: bool
  temp_customer_id :: "string option"
  temp_name :: "string option"
  temp_account :: "string option"

record response =
  r_response :: string
  r_session_id :: string
  requires_verification :: "bool option"
  next_intent :: "string option"
  r_verified :: "bool option"
  r_customer_id :: "string option"
  tools_used :: "string list option"
  r_requires_security_question :: "bool option"
  verification_failed :: "bool option"
  escalation_id :: "string option"
  requires_new_session :: "bool option"
  error :: "bool option"

definition reply :: "string \<Rightarrow> string \<Rightarrow> response" where
  "reply text sid =
     \<lparr>r_response = text, r_session_id = sid, requires_verification = None, next_intent = None,
      r_verified = None, r_customer_id = None, tools_used = None,
      r_requires_security_question = None, verification_failed = None, escalation_id = None,
      requires_new_session = None, error = None\<rparr>"

text \<open>
  The tools whose results do not depend on the tables above are parameters:
  \<open>escalate_to_human session_id customer_id\<close> gives the message and the ticket on
  success; \<open>banking_knowledge_base query\<close> the topic, information and steps of each
  result; \<open>transaction_history customer_id\<close> the lines of the transactions, as the
  response prints them. \<open>None\<close> is a result with \<open>success\<close> false.
\<close>

record tools =
  escalate_to_human :: "string \<Rightarrow> string option \<Rightarrow> (string \<times> string) option"
  banking_knowledge_base :: "string \<Rightarrow> (string \<times> string \<times> string list) list option"
  transaction_history :: "string \<Rightarrow> string list option"

datatype py_error = UnboundLocalError

text \<open>Python's truth value of a string that may be \<open>None\<close>\<close>

definition truthy :: "string option \<Rightarrow> bool" where
  "truthy v = (v \<noteq> None \<and> v \<noteq> Some [])"

definition bank_name :: string where
  "bank_name = ''Bank Of AI''"

definition session_timeout_minutes :: int where
  "session_timeout_minutes = 30"

subsection \<open>\<open>_handle_identity_verification\<close>\<close>

text \<open>
  The first half of \<open>_handle_identity_verification\<close>: the account number and the full
  name it takes from the message. The local variable \<open>words\<close> is assigned only where the
  entities hold no account number; the loop that reads it in the other case raises
  \<open>UnboundLocalError\<close>.
\<close>

definition extract_credentials ::
  "string \<Rightarrow> entities \<Rightarrow> py_error + (string option \<times> string option)" where
  "extract_credentials msg ents =
     (let words = (if truthy (e_account_number ents) then None else Some (split msg));
          account_number =
            (if truthy (e_account_number ents) then e_account_number ents
             else case find (\<lambda>w. isdigit w \<and> 6 \<le> length w) (split msg) of
                    Some w \<Rightarrow> Some w
                  | None \<Rightarrow> e_account_number ents)
      in if contains ''name is'' (lower msg) then
           (let name_start = find_index ''name is'' (lower msg) + 7;
                name_part = take 3 (split (drop name_start msg));
                clean_words = filter (\<lambda>w. lower w \<notin> set [''and'', ''my'', ''account'', ''number''])
                                name_part
            in Inr (Some (strip_chars ''.,!?'' (join '' '' clean_words)), account_number))
         else if truthy account_number then
           (case words of
              None \<Rightarrow> Inl UnboundLocalError
            | Some ws \<Rightarrow>
                (let name_words =
                       filter (\<lambda>w. isalpha w \<and>
                                 lower w \<notin> set [''my'', ''name'', ''is'', ''and'', ''account'', ''number''])
                         (map (\<lambda>w. remove_char CHR ''.'' (remove_char CHR '','' w))
                            (takeWhile (\<lambda>w. Some w \<noteq> account_number) ws))
                 in Inr (if 2 \<le> length name_words
                         then Some (join '' '' (drop (length name_words - 2) name_words))
                         else None,
                         account_number)))
         else Inr (None, account_number))"

definition clear_attempt :: "session \<Rightarrow> session" where
  "clear_attempt s =
     s\<lparr>awaiting_security_answer := False, temp_customer_id := None, temp_name := None,
       temp_account := None\<rparr>"

definition handle_identity_verification ::
  "database \<Rightarrow> int \<Rightarrow> string \<Rightarrow> string \<Rightarrow> session \<Rightarrow> entities
     \<Rightarrow> py_error + (response \<times> session \<times> database)" where
  "handle_identity_verification db now sid msg s ents =
     (case extract_credentials msg ents of
        Inl e \<Rightarrow> Inl e
      | Inr (name, acc) \<Rightarrow>
          Inr
           (if truthy name \<and> truthy acc then
              (case verify_customer_identity db now sid (the name) (the acc) None of
                 (result, db') \<Rightarrow>
                   if verified result then
                     ((reply (message result @ '' What can I help you with today?'') sid)
                        \<lparr>r_verified := Some True, r_customer_id := v_customer_id result,
                         tools_used := Some [''verify_customer_identity'']\<rparr>,
                      s\<lparr>s_is_verified := True, s_customer_id := v_customer_id result\<rparr>, db')
                   else if requires_security_question result = Some True then
                     ((reply (message result) sid)
                        \<lparr>r_requires_security_question := Some True,
                         r_customer_id := v_customer_id result,
                         tools_used := Some [''verify_customer_identity'']\<rparr>,
                      s\<lparr>awaiting_security_answer := True,
                        temp_customer_id := v_customer_id result,
                        temp_name := name, temp_account := acc\<rparr>, db')
                   else
                     ((reply (message result) sid)
                        \<lparr>verification_failed := Some True,
                         tools_used := Some [''verify_customer_identity'']\<rparr>, s, db'))
            else if awaiting_security_answer s \<and> truthy (temp_customer_id s) then
              (case verify_customer_identity db now sid
                      (case temp_name s of None \<Rightarrow> [] | Some n \<Rightarrow> n)
                      (case temp_account s of None \<Rightarrow> [] | Some a \<Rightarrow> a) (Some msg) of
                 (result, db') \<Rightarrow>
                   if verified result then
                     ((reply (message result @ '' What can I help you with today?'') sid)
                        \<lparr>r_verified := Some True, r_customer_id := v_customer_id result,
                         tools_used := Some [''verify_customer_identity'']\<rparr>,
                      (clear_attempt s)\<lparr>s_is_verified := True,
                         s_customer_id := v_customer_id result\<rparr>, db')
                   else
                     ((reply (message result) sid)
                        \<lparr>verification_failed := Some True,
                         tools_used := Some [''verify_customer_identity'']\<rparr>,
                      (if contains ''too many'' (lower (message result)) then clear_attempt s else s),
                      db'))
            else
              ((reply ''To verify your identity, I need your full name and account number. Please provide both in your message.'' sid)
                 \<lparr>requires_verification := Some True\<rparr>, s, db)))"

subsection \<open>\<open>_handle_verified_request\<close>\<close>

definition nl :: string where
  "nl = [CHR 0x0A]"

text \<open>The bullet of the lists in the responses, in UTF-8\<close>

definition bullet :: string where
  "bullet = [CHR 0xE2, CHR 0x80, CHR 0xA2]"

definition update_prompt :: string where
  "update_prompt = ''I can help update your contact information. What would you like to change - your email, phone number, or address? Please provide the new information.''"

definition handle_verified_request ::
  "tools \<Rightarrow> database \<Rightarrow> int \<Rightarrow> string \<Rightarrow> string \<Rightarrow> string \<Rightarrow> string \<Rightarrow> entities
     \<Rightarrow> response \<times> database" where
  "handle_verified_request T db now sid msg intent cid ents =
     (let answer = (\<lambda>text used db'.
            ((reply text sid)\<lparr>r_customer_id := Some cid, tools_used := Some used\<rparr>, db'))
      in
      if intent = ''balance_inquiry'' then
        (case query_account_balance db cid of
           Some b \<Rightarrow>
             answer (''Your current account balance is $'' @ format_2f b
                       @ ''. Is there anything else I can help you with?'')
               [''query_account_balance''] db
         | None \<Rightarrow>
             answer (''I'm sorry, I couldn't retrieve your balance at this time. ''
                       @ ''Customer account not found or inactive'')
               [''query_account_balance''] db)
      else if intent = ''transaction_history'' then
        (case transaction_history T cid of
           Some (l # ls) \<Rightarrow>
             answer (''Here are your recent transactions:'' @ nl @ nl
                       @ concat (map (\<lambda>line. line @ nl) (take 3 (l # ls)))
                       @ nl @ ''Total transactions in last 30 days: '' @ show_nat (length (l # ls)))
               [''transaction_history''] db
         | _ \<Rightarrow>
             answer ''I don't see any recent transactions on your account.''
               [''transaction_history''] db)
      else if intent = ''update_information'' then
        (if truthy (e_update_field ents) \<and> (truthy (e_new_email ents) \<or> truthy (e_new_phone ents))
         then
           (let update_field = the (e_update_field ents);
                updates = (if update_field = ''email'' \<and> truthy (e_new_email ents)
                           then [(''email'', the (e_new_email ents))]
                           else if update_field = ''phone'' \<and> truthy (e_new_phone ents)
                           then [(''phone'', the (e_new_phone ents))]
                           else [])
            in if updates \<noteq> [] then
                 (case update_customer_record db now cid updates of
                    (result, db') \<Rightarrow>
                      if success result then
                        answer (''I've successfully updated your '' @ update_field @ '' to ''
                                  @ snd (hd updates)
                                  @ ''. Is there anything else I can help you with?'')
                          [''update_customer_record''] db'
                      else
                        answer (''I encountered an issue updating your '' @ update_field @ ''. ''
                                  @ u_message result)
                          [''update_customer_record''] db')
               else answer update_prompt [] db)
         else answer update_prompt [] db)
      else if intent = ''file_management'' then
        answer ''I can help with document management. Would you like to upload a document, view your existing documents, or organize your files?'' [] db
      else if intent = ''document_ocr'' then
        answer ''I can help you process documents using OCR technology to extract text and banking information. Please upload your document (PDF, image, or scan) and I'll analyze it for you. What type of document would you like me to process?'' [] db
      else
        (case banking_knowledge_base T msg of
           Some ((topic, information, steps) # _) \<Rightarrow>
             answer (''Here's information about '' @ topic @ '':'' @ nl @ nl @ information)
               [''banking_knowledge_base''] db
         | _ \<Rightarrow>
             answer ''I'm here to help with your banking needs. You can ask about your balance, transaction history, update your information, or get general banking assistance.''
               [''banking_knowledge_base''] db))"

subsection \<open>\<open>_generate_response\<close>\<close>

definition sensitive_intents :: "string list" where
  "sensitive_intents = [''balance_inquiry'', ''transaction_history'', ''update_information'',
     ''file_management'', ''document_ocr'']"

definition verification_request :: string where
  "verification_request = ''I'd be happy to help with that! First, I need to verify your identity for security purposes. Please provide your full name and account number.''"

text \<open>
  The context override at the head of \<open>_generate_response\<close>: the intent with which the
  rest of the function goes on.
\<close>

definition context_override :: "session \<Rightarrow> string \<Rightarrow> string \<Rightarrow> entities \<Rightarrow> string" where
  "context_override s msg intent ents =
     (case conversation_history s of
        [] \<Rightarrow> intent
      | _ # _ \<Rightarrow>
          (let last_message = last (conversation_history s) in
           if t_role last_message = ''assistant''
              \<and> contains ''provide your full name and account number'' (t_message last_message)
              \<and> (truthy (e_account_number ents) \<or> contains ''name'' (lower msg))
           then ''identity_verification'' else intent))"

definition generate_response ::
  "tools \<Rightarrow> database \<Rightarrow> int \<Rightarrow> string \<Rightarrow> string \<Rightarrow> string \<Rightarrow> session \<Rightarrow> entities
     \<Rightarrow> py_error + (response \<times> session \<times> database)" where
  "generate_response T db now sid msg intent0 s ents =
     (let is_verified = s_is_verified s;
          intent = context_override s msg intent0 ents
      in
      if intent = ''greeting'' then
        Inr ((reply (''Hello! I'm NANO, your '' @ bank_name
                       @ '' customer service assistant. How can I help you today?'') sid)
               \<lparr>requires_verification := Some False\<rparr>, s, db)
      else if intent = ''escalation'' then
        (case escalate_to_human T sid (s_customer_id s) of
           Some (text, ticket) \<Rightarrow>
             Inr ((reply text sid)\<lparr>escalation_id := Some ticket,
                                   tools_used := Some [''escalate_to_human'']\<rparr>, s, db)
         | None \<Rightarrow>
             Inr ((reply ''I'm having trouble connecting you to a representative right now. Please try calling our customer service line directly.'' sid)
                    \<lparr>tools_used := Some [''escalate_to_human'']\<rparr>, s, db))
      else if intent \<in> set sensitive_intents \<and> \<not> is_verified then
        Inr ((reply verification_request sid)
               \<lparr>requires_verification := Some True, next_intent := Some intent\<rparr>, s, db)
      else if intent = ''identity_verification''
              \<or> (\<not> is_verified \<and> truthy (e_account_number ents)) then
        handle_identity_verification db now sid msg s ents
      else if is_verified \<and> truthy (s_customer_id s) then
        (case handle_verified_request T db now sid msg intent (the (s_customer_id s)) ents of
           (r, db') \<Rightarrow> Inr (r, s, db'))
      else if intent = ''general_support'' then
        (case banking_knowledge_base T msg of
           Some ((topic, information, steps) # _) \<Rightarrow>
             Inr ((reply (''Here's information about '' @ topic @ '':'' @ nl @ nl @ information
                           @ (if steps = [] then []
                              else nl @ nl @ ''Steps:'' @ nl
                                   @ join nl (map (\<lambda>step. bullet @ '' '' @ step) steps))) sid)
                    \<lparr>tools_used := Some [''banking_knowledge_base'']\<rparr>, s, db)
         | _ \<Rightarrow>
             Inr ((reply ''I'd be happy to help! Could you please provide more details about what you're looking for?'' sid)
                    \<lparr>tools_used := Some [''banking_knowledge_base'']\<rparr>, s, db))
      else
        Inr (reply ''I understand you need assistance. Could you please provide more specific information about how I can help you today?'' sid,
             s, db))"

subsection \<open>\<open>create_session\<close> and \<open>process_message\<close>\<close>

text \<open>The agent object: the dictionary \<open>active_sessions\<close> and the database session\<close>

record agent =
  active_sessions :: "string \<rightharpoonup> session"
  db :: database

definition new_session :: "int \<Rightarrow> string option \<Rightarrow> bool \<Rightarrow> session" where
  "new_session t cid v =
     \<lparr>s_created_at = t, s_customer_id = cid, s_is_verified = v, s_last_activity = None,
      conversation_history = [], awaiting_security_answer = False, temp_customer_id = None,
      temp_name = None, temp_account = None\<rparr>"

text \<open>\<open>create_session(customer_id)\<close>, with the identifier that \<open>uuid.uuid4()\<close> drew\<close>

definition create_session :: "agent \<Rightarrow> int \<Rightarrow> string \<Rightarrow> string option \<Rightarrow> agent" where
  "create_session A now sid cid =
     \<lparr>active_sessions = (active_sessions A)(sid \<mapsto> new_session now cid False),
      db = (db A)\<lparr>sessions := sessions (db A) @
              [\<lparr>ds_session_id = sid, ds_customer_id = cid, ds_is_verified = False,
                ds_created_at = now, ds_last_activity = now, ds_status = ''active''\<rparr>]\<rparr>\<rparr>"

definition save_conversation_message ::
  "database \<Rightarrow> int \<Rightarrow> string \<Rightarrow> string \<Rightarrow> string \<Rightarrow> string option \<Rightarrow> metadata option \<Rightarrow> database" where
  "save_conversation_message d now sid role msg cid extra =
     d\<lparr>conversations := conversations d @
          [\<lparr>c_session_id = sid, c_customer_id = cid, c_role = role, c_message = msg,
            c_created_at = now, c_extra_data = extra\<rparr>]\<rparr>"

text \<open>
  \<open>_get_conversation_history(session_id)\<close>: the rows of the session of the last eight
  hours, ordered by \<open>created_at\<close>; rows of one instant stay in insertion order.
\<close>

definition get_conversation_history :: "database \<Rightarrow> int \<Rightarrow> string \<Rightarrow> turn list" where
  "get_conversation_history d now sid =
     map (\<lambda>c. \<lparr>t_role = c_role c, t_message = c_message c, t_timestamp = c_created_at c\<rparr>)
       (sort_key c_created_at
          (filter (\<lambda>c. c_session_id c = sid \<and> now - 8 * 3600 \<le> c_created_at c)
             (conversations d)))"

definition is_session_expired :: "int \<Rightarrow> session \<Rightarrow> bool" where
  "is_session_expired now s = (session_timeout_minutes * 60 < now - s_created_at s)"

definition update_session_activity :: "database \<Rightarrow> int \<Rightarrow> string \<Rightarrow> database" where
  "update_session_activity d now sid =
     d\<lparr>sessions := update_first (\<lambda>r. ds_session_id r = sid) (\<lambda>r. r\<lparr>ds_last_activity := now\<rparr>)
                     (sessions d)\<rparr>"

text \<open>
  The session that \<open>process_message\<close> works on: the entry of \<open>active_sessions\<close>, or
  else the active row of the table \<open>sessions\<close>, from which the entry is restored.
\<close>

definition lookup_session :: "agent \<Rightarrow> string \<Rightarrow> session option" where
  "lookup_session A sid =
     (case active_sessions A sid of
        Some s \<Rightarrow> Some s
      | None \<Rightarrow>
          map_option (\<lambda>r. new_session (ds_created_at r) (ds_customer_id r) (ds_is_verified r))
            (find (\<lambda>r. ds_session_id r = sid \<and> ds_status r = ''active'') (sessions (db A))))"

text \<open>
  \<open>process_message(session_id, message)\<close> at the time \<open>now\<close>: the response and the agent
  afterwards. An exception of \<open>_generate_response\<close> ends in the \<open>except\<close> branch; what
  was written before it stays.
\<close>

definition process_message :: "tools \<Rightarrow> agent \<Rightarrow> int \<Rightarrow> string \<Rightarrow> string \<Rightarrow> response \<times> agent" where
  "process_message T A now sid msg =
     (case lookup_session A sid of
      None \<Rightarrow>
        ((reply ''I'm sorry, your session has expired. Please start a new conversation.'' sid)
           \<lparr>requires_new_session := Some True\<rparr>, A)
    | Some s0 \<Rightarrow>
        if is_session_expired now s0 then
          ((reply ''Your session has timed out for security reasons. Please start a new conversation.'' sid)
             \<lparr>requires_new_session := Some True\<rparr>,
           A\<lparr>active_sessions := (active_sessions A)(sid \<mapsto> s0)\<rparr>)
        else
          (let d1 = update_session_activity (db A) now sid;
               d2 = save_conversation_message d1 now sid ''user'' msg (s_customer_id s0) None;
               s1 = s0\<lparr>s_last_activity := Some now,
                       conversation_history := get_conversation_history d2 now sid\<rparr>;
               intent_analysis = analyze_intent msg;
               intent = primary_intent intent_analysis
           in case generate_response T d2 now sid msg intent s1 (entities intent_analysis) of
                Inl e \<Rightarrow>
                  ((reply ''I apologize, but I'm experiencing technical difficulties. Please try again or contact customer service.'' sid)
                     \<lparr>error := Some True\<rparr>,
                   \<lparr>active_sessions = (active_sessions A)(sid \<mapsto> s1), db = d2\<rparr>)
              | Inr (r, s2, d3) \<Rightarrow>
                  (r,
                   \<lparr>active_sessions = (active_sessions A)(sid \<mapsto> s2),
                    db = save_conversation_message d3 now sid ''assistant'' (r_response r)
                           (s_customer_id s2)
                           (Some \<lparr>m_intent = intent,
                                  m_tools_used = (case tools_used r of None \<Rightarrow> [] | Some u \<Rightarrow> u),
                                  m_requires_verification =
                                    (case requires_verification r of None \<Rightarrow> False | Some b \<Rightarrow> b),
                                  m_verified = (case r_verified r of None \<Rightarrow> False | Some b \<Rightarrow> b)\<rparr>)\<rparr>)))"

section \<open>Notions used in the properties\<close>

text \<open>
  A delimited run of digits: at least six digits from index \<open>i\<close> on, \<open>n\<close> of them, with
  no word character before or behind. \<open>run_at\<close> is the same for a text that follows a
  character of which only the class is known.
\<close>

definition run_at :: "bool \<Rightarrow> string \<Rightarrow> nat \<Rightarrow> nat \<Rightarrow> bool" where
  "run_at pw s i n =
     (6 \<le> n \<and> i + n \<le> length s \<and> list_all is_digit (take n (drop i s)) \<and>
      (if i = 0 then \<not> pw else \<not> is_word_char (s ! (i - 1))) \<and>
      (i + n = length s \<or> \<not> is_word_char (s ! (i + n))))"

definition delimited_run :: "string \<Rightarrow> nat \<Rightarrow> nat \<Rightarrow> bool" where
  "delimited_run msg i n = run_at False msg i n"

text \<open>The customer of the fixtures of \<open>tests/test_agent.py\<close>, with a balance of 1000.00\<close>

definition test_customer :: customer where
  "test_customer =
     \<lparr>customer_id = ''test123'', full_name = ''John Doe'', account_number = ''1234567890'',
      email = ''john@test.com'', phone = None, address = None,
      security_question = ''What is your pet's name?'', security_answer = ''fluffy'',
      account_balance = 100000, account_status = ''active'', updated_at = None,
      is_verified = False, login_attempts = 0, last_login = None\<rparr>"

definition test_db :: database where
  "test_db = \<lparr>customers = [test_customer], sessions = [], conversations = []\<rparr>"

text \<open>
  Two customer rows that agree in every column but \<open>email\<close>, \<open>phone\<close>, \<open>address\<close> and
  \<open>updated_at\<close>.
\<close>

definition same_but_contact :: "customer \<Rightarrow> customer \<Rightarrow> bool" where
  "same_but_contact c c' =
     (customer_id c' = customer_id c \<and> full_name c' = full_name c \<and>
      account_number c' = account_number c \<and>
      security_question c' = security_question c \<and>
      security_answer c' = security_answer c \<and>
      account_balance c' = account_balance c \<and>
      account_status c' = account_status c \<and>
      is_verified c' = is_verified c \<and>
      login_attempts c' = login_attempts c \<and>
      last_login c' = last_login c)"

text \<open>A store with a second customer\<close>

definition two_customers :: database where
  "two_customers =
     \<lparr>customers = [test_customer,
        test_customer\<lparr>customer_id := ''test456'', full_name := ''Jane Roe'',
          account_number := ''9876543210'', email := ''jane@test.com''\<rparr>],
      sessions = [], conversations = []\<rparr>"

text \<open>Collaborators that are out of service: every tool call reports a failure.\<close>

definition offline_tools :: tools where
  "offline_tools = \<lparr>escalate_to_human = (\<lambda>_ _. None), banking_knowledge_base = (\<lambda>_. None),
                     transaction_history = (\<lambda>_. None)\<rparr>"

text \<open>A conversation: the messages of one session, each with its time, in order.\<close>

fun process_messages ::
  "tools \<Rightarrow> agent \<Rightarrow> string \<Rightarrow> (int \<times> string) list \<Rightarrow> response list \<times> agent" where
  "process_messages T A sid [] = ([], A)"
| "process_messages T A sid ((now, msg) # rest) =
     (case process_message T A now sid msg of
        (r, A') \<Rightarrow> (case process_messages T A' sid rest of (rs, A'') \<Rightarrow> (r # rs, A'')))"

text \<open>An agent with no session yet, on the store of the tests.\<close>

definition test_agent :: agent where
  "test_agent = \<lparr>active_sessions = Map.empty, db = test_db\<rparr>"

text \<open>
  The second message of the scenario of the tests, a session as \<open>create_session\<close>
  makes it, and the session after the security question has been put to John Doe.
\<close>

definition credentials_message :: string where
  "credentials_message = ''My name is John Doe and my account number is 1234567890''"

definition fresh_session :: session where
  "fresh_session = new_session 0 None False"

definition awaiting_session :: session where
  "awaiting_session =
     fresh_session\<lparr>awaiting_security_answer := True, temp_customer_id := Some ''test123'',
       temp_name := Some ''John Doe'', temp_account := Some ''1234567890''\<rparr>"

text \<open>The store of the tests with the account suspended, and with three failed attempts.\<close>

definition suspended_db :: database where
  "suspended_db = test_db\<lparr>customers := [test_customer\<lparr>account_status := ''suspended''\<rparr>]\<rparr>"

definition locked_db :: database where
  "locked_db = test_db\<lparr>customers := [test_customer\<lparr>login_attempts := 3\<rparr>]\<rparr>"

text \<open>
  Two wrong answers in a first session and one in a second, on the agent of the tests:
  the agents after the first and after the second session.
\<close>

definition after_first_session :: agent where
  "after_first_session =
     snd (process_messages offline_tools (create_session test_agent 0 ''s1'' None) ''s1''
            [(1, credentials_message), (2, ''verify rex''), (3, ''verify rex'')])"

definition after_second_session :: agent where
  "after_second_session =
     snd (process_messages offline_tools (create_session after_first_session 10 ''s2'' None) ''s2''
            [(11, credentials_message), (12, ''verify rex'')])"

text \<open>
  The security answers of one episode: \<open>_handle_identity_verification\<close> on each message
  in turn, with no entities.
\<close>

fun handle_answers ::
  "database \<Rightarrow> string \<Rightarrow> session \<Rightarrow> (int \<times> string) list
     \<Rightarrow> py_error + (response list \<times> session \<times> database)" where
  "handle_answers d sid s [] = Inr ([], s, d)"
| "handle_answers d sid s ((now, msg) # rest) =
     (case handle_identity_verification d now sid msg s no_entities of
        Inl e \<Rightarrow> Inl e
      | Inr (r, s', d') \<Rightarrow>
          (case handle_answers d' sid s' rest of
             Inl e \<Rightarrow> Inl e
           | Inr (rs, s'', d'') \<Rightarrow> Inr (r # rs, s'', d'')))"

text \<open>The conversation of the scenario of the tests.\<close>

definition scenario :: "(int \<times> string) list" where
  "scenario = [(1, ''What's my balance?''), (2, credentials_message), (3, ''fluffy''),
               (4, ''What's my balance?'')]"

definition default_reply :: string where
  "default_reply = ''I understand you need assistance. Could you please provide more specific information about how I can help you today?''"

text \<open>A name without the wildcards of \<open>LIKE\<close>.\<close>

definition wildcard_free :: "string \<Rightarrow> bool" where
  "wildcard_free s = (CHR ''%'' \<notin> set s \<and> CHR ''_'' \<notin> set s)"

section \<open>Properties of the entity extractor\<close>

lemma run_at_Suc: "run_at pw (c # cs) (Suc i) n = run_at (is_word_char c) cs i n"
  by (cases i) (auto simp: run_at_def)

lemma digit_is_word: "is_digit c \<Longrightarrow> is_word_char c"
  by (simp add: is_word_char_def)

lemma run_at_0_takeWhile:
  assumes "run_at pw s 0 n"
  shows "takeWhile is_digit s = take n s"
proof (rule takeWhile_eq_take_P_nth)
  fix i assume "i < n" "i < length s"
  with assms show "is_digit (s ! i)"
    by (auto simp: run_at_def list_all_length)
next
  assume "n < length s"
  with assms show "\<not> is_digit (s ! n)"
    by (auto simp: run_at_def dest: digit_is_word)
qed

lemma run_at_0_head:
  assumes "run_at pw (c # cs) 0 n"
  shows "\<not> pw \<and> 6 \<le> length (takeWhile is_digit (c # cs)) \<and>
         (case dropWhile is_digit (c # cs) of [] \<Rightarrow> True | d # _ \<Rightarrow> \<not> is_word_char d)"
proof -
  have tw: "takeWhile is_digit (c # cs) = take n (c # cs)"
    by (rule run_at_0_takeWhile [OF assms])
  have n: "6 \<le> n" "n \<le> length (c # cs)" "\<not> pw"
    using assms by (auto simp: run_at_def)
  have len: "length (takeWhile is_digit (c # cs)) = n"
    using n by (simp add: tw del: takeWhile.simps)
  have dw: "dropWhile is_digit (c # cs) = drop n (c # cs)"
    using len by (metis dropWhile_eq_drop)
  have "case drop n (c # cs) of [] \<Rightarrow> True | d # _ \<Rightarrow> \<not> is_word_char d"
  proof (cases "drop n (c # cs)")
    case Nil then show ?thesis by simp
  next
    case (Cons d ds)
    then have lt: "n < length (c # cs)" by (metis drop_all list.distinct(1) not_le)
    then have "d = (c # cs) ! n" using Cons by (metis nth_via_drop)
    moreover have "\<not> is_word_char ((c # cs) ! n)"
      using assms lt by (auto simp: run_at_def)
    ultimately show ?thesis using Cons by simp
  qed
  then show ?thesis using n len dw by (simp del: takeWhile.simps dropWhile.simps)
qed

lemma head_run_at:
  assumes "\<not> pw" "6 \<le> length (takeWhile is_digit s)"
    "case dropWhile is_digit s of [] \<Rightarrow> True | d # _ \<Rightarrow> \<not> is_word_char d"
  shows "run_at pw s 0 (length (takeWhile is_digit s))"
proof -
  let ?m = "length (takeWhile is_digit s)"
  have le: "?m \<le> length s" by (rule length_takeWhile_le)
  have tk: "take ?m s = takeWhile is_digit s"
    by (metis takeWhile_eq_take)
  have digs: "list_all is_digit (take ?m s)"
    unfolding tk by (simp add: list_all_iff) (meson set_takeWhileD)
  have dw: "dropWhile is_digit s = drop ?m s" by (rule dropWhile_eq_drop)
  have endc: "?m = length s \<or> \<not> is_word_char (s ! ?m)"
  proof (cases "?m = length s")
    case False
    then have lt: "?m < length s" using le by simp
    then have "drop ?m s = s ! ?m # drop (Suc ?m) s" by (simp add: Cons_nth_drop_Suc)
    with assms(3) dw show ?thesis by simp
  qed simp
  show ?thesis using assms(1,2) le digs endc by (simp add: run_at_def)
qed

lemma account_findall_first:
  "run_at pw s i n \<Longrightarrow>
   \<exists>j m rest. j \<le> i \<and> run_at pw s j m \<and> (\<forall>j' m'. run_at pw s j' m' \<longrightarrow> j \<le> j') \<and>
     account_findall pw s = take m (drop j s) # rest"
proof (induction s arbitrary: pw i n)
  case Nil
  then show ?case by (auto simp: run_at_def)
next
  case (Cons c cs)
  let ?M = "\<not> pw \<and> 6 \<le> length (takeWhile is_digit (c # cs)) \<and>
         (case dropWhile is_digit (c # cs) of [] \<Rightarrow> True | d # _ \<Rightarrow> \<not> is_word_char d)"
  show ?case
  proof (cases ?M)
    case True
    let ?m = "length (takeWhile is_digit (c # cs))"
    have r: "run_at pw (c # cs) 0 ?m" using True by (intro head_run_at) auto
    have "account_findall pw (c # cs) =
            take ?m (drop 0 (c # cs)) # account_findall True (dropWhile is_digit (c # cs))"
      using True by (simp add: takeWhile_eq_take [symmetric] del: takeWhile.simps dropWhile.simps)
    with r show ?thesis by (metis le0)
  next
    case False
    have no0: "\<not> run_at pw (c # cs) 0 k" for k
      using False run_at_0_head by blast
    obtain i' where i: "i = Suc i'"
      using Cons.prems no0 by (cases i) auto
    then have "run_at (is_word_char c) cs i' n"
      using Cons.prems by (simp add: run_at_Suc)
    from Cons.IH [OF this] obtain j m rest where
      j: "j \<le> i'" "run_at (is_word_char c) cs j m"
         "\<forall>j' m'. run_at (is_word_char c) cs j' m' \<longrightarrow> j \<le> j'"
         "account_findall (is_word_char c) cs = take m (drop j cs) # rest"
      by blast
    have fa: "account_findall pw (c # cs) = account_findall (is_word_char c) cs"
      by (simp only: account_findall.simps if_not_P [OF False])
    have min: "\<forall>j' m'. run_at pw (c # cs) j' m' \<longrightarrow> Suc j \<le> j'"
    proof (intro allI impI)
      fix j' m' assume h: "run_at pw (c # cs) j' m'"
      then obtain j'' where "j' = Suc j''" using no0 by (cases j') auto
      with h j(3) show "Suc j \<le> j'" by (auto simp: run_at_Suc)
    qed
    have "Suc j \<le> i" using j(1) i by simp
    moreover have "run_at pw (c # cs) (Suc j) m" using j(2) by (simp add: run_at_Suc)
    moreover have "account_findall pw (c # cs) = take m (drop (Suc j) (c # cs)) # rest"
      using fa j(4) by simp
    ultimately show ?thesis using min by blast
  qed
qed

lemma account_entity:
  "e_account_number (extract_entities msg) =
     (case account_findall False msg of [] \<Rightarrow> None | a # _ \<Rightarrow> Some a)"
  by (simp add: extract_entities_def Let_def no_entities_def split: list.splits)

text \<open>
  Claim C7, amended. The account pattern is anchored at word boundaries. For every
  message with a delimited run of at least six digits, the entity \<open>account_number\<close> is
  the first delimited run of the message.
\<close>

theorem C7_first_delimited_run:
  assumes "delimited_run msg i n"
  shows "\<exists>j m. j \<le> i \<and> delimited_run msg j m \<and>
           (\<forall>j' m'. delimited_run msg j' m' \<longrightarrow> j \<le> j') \<and>
           e_account_number (entities (analyze_intent msg)) = Some (take m (drop j msg))"
proof -
  from assms have "run_at False msg i n" by (simp add: delimited_run_def)
  from account_findall_first [OF this] obtain j m rest where
    "j \<le> i" "run_at False msg j m" "\<forall>j' m'. run_at False msg j' m' \<longrightarrow> j \<le> j'"
    "account_findall False msg = take m (drop j msg) # rest"
    by blast
  then show ?thesis
    by (auto simp: delimited_run_def analyze_intent_def Let_def account_entity)
qed

theorem C7_first_delimited_run_witness:
  "delimited_run ''x123456 7654321 99999999'' 16 8 \<and>
   (\<exists>a. e_account_number (entities (analyze_intent ''x123456 7654321 99999999'')) = Some a)"
proof -
  have h: "delimited_run ''x123456 7654321 99999999'' 16 8" by code_simp
  from C7_first_delimited_run [OF h] show ?thesis using h by blast
qed

text \<open>
  As it is stated, C7 fails: a run of seven digits that follows a letter is not
  extracted.
\<close>

theorem C7_counterexample:
  "''abc1234567'' = ''abc'' @ ''1234567'' \<and> 6 \<le> length ''1234567'' \<and> list_all is_digit ''1234567'' \<and>
   e_account_number (entities (analyze_intent ''abc1234567'')) = None"
  by code_simp

text \<open>No keyword of any category occurs in the message.\<close>

definition all_keywords :: "string list" where
  "all_keywords = identity_keywords @ balance_keywords @ transaction_keywords @ update_keywords
     @ contact_keywords @ file_keywords @ ocr_keywords @ help_keywords @ escalation_keywords
     @ greeting_keywords"

definition no_keyword_matches :: "string \<Rightarrow> bool" where
  "no_keyword_matches msg = (count_keywords all_keywords (lower msg) = 0)"

section \<open>Properties of the intent classifier\<close>

lemma count_keywords_append:
  "count_keywords (ks @ ks') s = count_keywords ks s + count_keywords ks' s"
  by (simp add: count_keywords_def)

lemma list_ex_count_keywords:
  "list_ex (\<lambda>kw. contains kw s) ks = (0 < count_keywords ks s)"
  by (induction ks) (auto simp: count_keywords_def)

lemma no_match_no_candidates:
  assumes "no_keyword_matches msg" "account_findall False msg = []"
  shows "candidate_intents msg = []"
proof -
  from assms(1) have z:
    "count_keywords identity_keywords (lower msg) = 0"
    "count_keywords balance_keywords (lower msg) = 0"
    "count_keywords transaction_keywords (lower msg) = 0"
    "count_keywords update_keywords (lower msg) = 0"
    "count_keywords contact_keywords (lower msg) = 0"
    "count_keywords file_keywords (lower msg) = 0"
    "count_keywords ocr_keywords (lower msg) = 0"
    "count_keywords help_keywords (lower msg) = 0"
    "count_keywords escalation_keywords (lower msg) = 0"
    "count_keywords greeting_keywords (lower msg) = 0"
    by (simp_all add: no_keyword_matches_def all_keywords_def count_keywords_append)
  show ?thesis
    by (simp add: candidate_intents_def Let_def z assms(2) list_ex_count_keywords)
qed

lemma sort_intents_descending:
  "sorted_wrt (\<lambda>a b. snd b \<le> snd a) (sort_intents xs)"
proof -
  have "sorted (map snd (sort_key snd (rev xs)))" by (rule sorted_sort_key)
  then have "sorted_wrt (\<lambda>a b. snd a \<le> snd b) (sort_key snd (rev xs))"
    by (simp add: sorted_map)
  then show ?thesis
    by (simp add: sort_intents_def sorted_wrt_rev)
qed

lemma sort_intents_stable:
  "filter (\<lambda>x. snd x = k) (sort_intents xs) = filter (\<lambda>x. snd x = k) xs"
proof -
  have "filter (\<lambda>x. snd x = k) (sort_intents xs)
          = rev (filter (\<lambda>x. snd x = k) (sort_key snd (rev xs)))"
    by (simp add: sort_intents_def rev_filter)
  also have "\<dots> = rev (filter (\<lambda>x. snd x = k) (rev xs))"
    by (simp only: sort_key_stable)
  also have "\<dots> = filter (\<lambda>x. snd x = k) xs"
    by (simp add: rev_filter)
  finally show ?thesis .
qed

text \<open>
  Claim C8, amended. For every message the candidate list is returned sorted by
  descending score, candidates of equal score in the order in which the categories are
  appended; when no keyword matches and the account pattern finds nothing, the primary
  intent is \<open>general_inquiry\<close> with the confidence \<open>0.1\<close>.
\<close>

theorem C8_ranking:
  "sorted_wrt (\<lambda>a b. snd b \<le> snd a) (all_intents (analyze_intent msg)) \<and>
   (\<forall>k. filter (\<lambda>x. snd x = k) (all_intents (analyze_intent msg))
          = filter (\<lambda>x. snd x = k) (candidate_intents msg)) \<and>
   (no_keyword_matches msg \<and> account_findall False msg = [] \<longrightarrow>
      primary_intent (analyze_intent msg) = ''general_inquiry'' \<and>
      confidence (analyze_intent msg) = f_0_1)"
proof (intro conjI allI impI)
  show "sorted_wrt (\<lambda>a b. snd b \<le> snd a) (all_intents (analyze_intent msg))"
    by (simp add: analyze_intent_def Let_def sort_intents_descending)
next
  fix k
  show "filter (\<lambda>x. snd x = k) (all_intents (analyze_intent msg))
          = filter (\<lambda>x. snd x = k) (candidate_intents msg)"
    by (simp add: analyze_intent_def Let_def sort_intents_stable)
next
  assume "no_keyword_matches msg \<and> account_findall False msg = []"
  then have "candidate_intents msg = []" by (simp add: no_match_no_candidates)
  then show "primary_intent (analyze_intent msg) = ''general_inquiry''"
    and "confidence (analyze_intent msg) = f_0_1"
    by (simp_all add: analyze_intent_def Let_def sort_intents_def)
qed

theorem C8_ranking_witness:
  "no_keyword_matches ''fluffy'' \<and> account_findall False ''fluffy'' = [] \<and>
   primary_intent (analyze_intent ''fluffy'') = ''general_inquiry'' \<and>
   confidence (analyze_intent ''fluffy'') = f_0_1"
proof -
  have h: "no_keyword_matches ''fluffy'' \<and> account_findall False ''fluffy'' = []"
    by code_simp
  with C8_ranking [of "''fluffy''"] show ?thesis by blast
qed

text \<open>
  As it is stated, C8 fails: a message that is only an account number matches no keyword,
  and its primary intent is \<open>identity_verification\<close> with the confidence \<open>0.5\<close>.
\<close>

theorem C8_counterexample:
  "no_keyword_matches ''1234567'' \<and>
   primary_intent (analyze_intent ''1234567'') = ''identity_verification'' \<and>
   confidence (analyze_intent ''1234567'') = f_0_5"
  by code_simp

section \<open>Properties of the customer lookup\<close>

lemma contains_decomp: "contains kw s \<Longrightarrow> \<exists>pre post. s = pre @ kw @ post"
proof (induction s)
  case Nil
  then show ?case by simp
next
  case (Cons c cs)
  show ?case
  proof (cases "prefix kw (c # cs)")
    case True
    then obtain post where "c # cs = kw @ post" by (auto simp: prefix_def)
    then have "c # cs = [] @ kw @ post" by simp
    then show ?thesis by blast
  next
    case False
    with Cons.prems have "contains kw cs" by simp
    from Cons.IH [OF this] obtain pre post where "cs = pre @ kw @ post" by blast
    then have "c # cs = (c # pre) @ kw @ post" by simp
    then show ?thesis by blast
  qed
qed

lemma like_match_percent: "like_match ''%'' s"
  by (induction s) auto

lemma like_match_skip: "like_match ps s \<Longrightarrow> like_match (CHR ''%'' # ps) s"
  by (cases s) auto

lemma like_match_self: "like_match (f @ ''%'') (f @ r)"
proof (induction f)
  case Nil
  show ?case by (simp add: like_match_percent)
next
  case (Cons p ps)
  show ?case
  proof (cases "p = CHR ''%''")
    case True
    have "like_match (CHR ''%'' # ps @ ''%'') (ps @ r)"
      using Cons.IH by (rule like_match_skip)
    then show ?thesis using True by simp
  next
    case False
    then show ?thesis using Cons.IH by simp
  qed
qed

lemma like_match_prepend:
  "like_match (CHR ''%'' # q) t \<Longrightarrow> like_match (CHR ''%'' # q) (pre @ t)"
  by (induction pre) auto

lemma lower_append: "lower (a @ b) = lower a @ lower b"
  by (simp add: lower_def)

lemma lower_percent: "lower ''%'' = ''%''"
  by (simp add: lower_def lower_char_def ascii_uppercase_def ascii_lowercase_def)

lemma ilike_fragment:
  assumes "contains (lower frag) (lower name)"
  shows "ilike name (''%'' @ frag @ ''%'')"
proof -
  from contains_decomp [OF assms] obtain pre post where
    d: "lower name = pre @ lower frag @ post" by blast
  have "like_match (lower frag @ ''%'') (lower frag @ post)" by (rule like_match_self)
  then have "like_match (CHR ''%'' # lower frag @ ''%'') (lower frag @ post)"
    by (rule like_match_skip)
  then have "like_match (CHR ''%'' # lower frag @ ''%'') (pre @ lower frag @ post)"
    by (rule like_match_prepend)
  moreover have "lower (''%'' @ frag @ ''%'') = CHR ''%'' # lower frag @ ''%''"
    using lower_percent by (simp add: lower_def)
  ultimately show ?thesis by (simp add: ilike_def d)
qed

lemma find_satisfies: "find P xs = Some x \<Longrightarrow> P x \<and> x \<in> set xs"
  by (induction xs) (auto split: if_splits)

lemma find_exists: "x \<in> set xs \<Longrightarrow> P x \<Longrightarrow> \<exists>y. find P xs = Some y"
  by (induction xs) auto

lemma like_match_prefix:
  "wildcard_free p \<Longrightarrow> like_match (p @ ''%'') s = prefix p s"
proof (induction p arbitrary: s)
  case Nil
  show ?case by (simp add: like_match_percent)
next
  case (Cons a p)
  then have a: "a \<noteq> CHR ''%''" "a \<noteq> CHR ''_''" and p: "wildcard_free p"
    by (auto simp: wildcard_free_def)
  show ?case
  proof (cases s)
    case Nil
    with a show ?thesis by simp
  next
    case (Cons c cs)
    with a Cons.IH [OF p, of cs] show ?thesis by auto
  qed
qed

lemma like_match_contains:
  assumes "wildcard_free p"
  shows "like_match (CHR ''%'' # p @ ''%'') s = contains p s"
proof (induction s)
  case Nil
  have "like_match (CHR ''%'' # p @ ''%'') [] = like_match (p @ ''%'') []"
    by simp
  also have "\<dots> = prefix p []" by (rule like_match_prefix [OF assms])
  finally show ?case by simp
next
  case (Cons c cs)
  have "like_match (CHR ''%'' # p @ ''%'') (c # cs)
          = (like_match (p @ ''%'') (c # cs) \<or> like_match (CHR ''%'' # p @ ''%'') cs)"
    by simp
  also have "\<dots> = (prefix p (c # cs) \<or> contains p cs)"
    by (simp only: like_match_prefix [OF assms] Cons.IH)
  finally show ?case by simp
qed

lemma lower_char_wildcard:
  "lower_char c = CHR ''%'' \<longleftrightarrow> c = CHR ''%''"
  "lower_char c = CHR ''_'' \<longleftrightarrow> c = CHR ''_''"
  "CHR ''%'' = lower_char c \<longleftrightarrow> c = CHR ''%''"
  "CHR ''_'' = lower_char c \<longleftrightarrow> c = CHR ''_''"
  by (auto simp: lower_char_def ascii_uppercase_def ascii_lowercase_def split: option.splits if_splits)

lemma wildcard_free_lower: "wildcard_free (lower s) = wildcard_free s"
  by (auto simp: wildcard_free_def lower_def image_iff lower_char_wildcard)

lemma ilike_contains:
  assumes "wildcard_free frag"
  shows "ilike name (''%'' @ frag @ ''%'') = contains (lower frag) (lower name)"
proof -
  have "lower (''%'' @ frag @ ''%'') = CHR ''%'' # lower frag @ ''%''"
    using lower_percent by (simp add: lower_def)
  moreover have "wildcard_free (lower frag)"
    using assms by (simp add: wildcard_free_lower)
  ultimately show ?thesis by (simp add: ilike_def like_match_contains)
qed

text \<open>
  Claim C9, amended. The lookup of \<open>verify_customer_identity\<close> takes the account number
  exactly and the name as a \<open>LIKE\<close> pattern between two \<open>%\<close>, without regard to the case
  of letters. Every fragment that the stored full name contains passes, the surname
  alone and the empty string among them. For a name without the wildcards \<open>%\<close> and \<open>_\<close>
  the lookup is the first customer with this account number whose full name contains the
  name, and there is none if no such customer exists. Every customer that the lookup
  returns has the account number and matches the pattern.
\<close>

theorem C9_name_pattern:
  "(contains (lower frag) (lower (full_name c)) \<longrightarrow>
      matches_customer frag (account_number c) c) \<and>
   (wildcard_free frag \<longrightarrow>
      find_customer d frag acc =
        find (\<lambda>c. account_number c = acc \<and> contains (lower frag) (lower (full_name c)))
          (customers d)) \<and>
   (\<forall>c'. find_customer d frag acc = Some c' \<longrightarrow>
      c' \<in> set (customers d) \<and> account_number c' = acc \<and>
      like_match (lower (''%'' @ frag @ ''%'')) (lower (full_name c')))"
proof (intro conjI allI impI)
  assume "contains (lower frag) (lower (full_name c))"
  then have "ilike (full_name c) (''%'' @ frag @ ''%'')" by (rule ilike_fragment)
  then show "matches_customer frag (account_number c) c"
    unfolding matches_customer_def by blast
next
  assume w: "wildcard_free frag"
  have "matches_customer frag acc =
          (\<lambda>c. account_number c = acc \<and> contains (lower frag) (lower (full_name c)))"
    unfolding matches_customer_def ilike_contains [OF w] by (rule refl)
  then show "find_customer d frag acc =
        find (\<lambda>c. account_number c = acc \<and> contains (lower frag) (lower (full_name c)))
          (customers d)"
    by (simp only: find_customer_def)
next
  fix c' assume "find_customer d frag acc = Some c'"
  then have "matches_customer frag acc c' \<and> c' \<in> set (customers d)"
    unfolding find_customer_def by (rule find_satisfies)
  then show "c' \<in> set (customers d)" and "account_number c' = acc"
    and "like_match (lower (''%'' @ frag @ ''%'')) (lower (full_name c'))"
    unfolding matches_customer_def ilike_def by blast+
qed

theorem C9_name_pattern_witness:
  "contains (lower ''DOE'') (lower (full_name test_customer)) \<and>
   contains (lower []) (lower (full_name test_customer)) \<and>
   matches_customer ''DOE'' ''1234567890'' test_customer \<and>
   matches_customer [] ''1234567890'' test_customer \<and>
   wildcard_free ''DOE'' \<and> wildcard_free ''Invalid User'' \<and>
   find_customer test_db ''DOE'' ''1234567890'' = Some test_customer \<and>
   find_customer test_db ''Invalid User'' ''1234567890'' = None \<and>
   find_customer test_db ''DOE'' ''1234567891'' = None \<and>
   account_number test_customer = ''1234567890''"
proof -
  note main = C9_name_pattern
  have a: "account_number test_customer = ''1234567890''" by code_simp
  have c1: "contains (lower ''DOE'') (lower (full_name test_customer))"
    and c2: "contains (lower []) (lower (full_name test_customer))"
    by code_simp+
  have w1: "wildcard_free ''DOE''" and w2: "wildcard_free ''Invalid User''"
    by code_simp+
  have m1: "matches_customer ''DOE'' ''1234567890'' test_customer"
    using mp [OF conjunct1 [OF main [of "''DOE''" test_customer test_db "''1234567890''"]] c1] a
    by simp
  have m2: "matches_customer [] ''1234567890'' test_customer"
    using mp [OF conjunct1 [OF main [of "[]" test_customer test_db "''1234567890''"]] c2] a
    by simp
  have f1: "find_customer test_db ''DOE'' ''1234567890'' =
        find (\<lambda>c. account_number c = ''1234567890'' \<and>
                  contains (lower ''DOE'') (lower (full_name c))) (customers test_db)"
    by (rule mp [OF conjunct1 [OF conjunct2
          [OF main [of "''DOE''" test_customer test_db "''1234567890''"]]] w1])
  have f2: "find_customer test_db ''Invalid User'' ''1234567890'' =
        find (\<lambda>c. account_number c = ''1234567890'' \<and>
                  contains (lower ''Invalid User'') (lower (full_name c))) (customers test_db)"
    by (rule mp [OF conjunct1 [OF conjunct2
          [OF main [of "''Invalid User''" test_customer test_db "''1234567890''"]]] w2])
  have f3: "find_customer test_db ''DOE'' ''1234567891'' =
        find (\<lambda>c. account_number c = ''1234567891'' \<and>
                  contains (lower ''DOE'') (lower (full_name c))) (customers test_db)"
    by (rule mp [OF conjunct1 [OF conjunct2
          [OF main [of "''DOE''" test_customer test_db "''1234567891''"]]] w1])
  have e1: "find (\<lambda>c. account_number c = ''1234567890'' \<and>
                  contains (lower ''DOE'') (lower (full_name c))) (customers test_db)
            = Some test_customer"
    by code_simp
  have e2: "find (\<lambda>c. account_number c = ''1234567890'' \<and>
                  contains (lower ''Invalid User'') (lower (full_name c))) (customers test_db)
            = None"
    by code_simp
  have e3: "find (\<lambda>c. account_number c = ''1234567891'' \<and>
                  contains (lower ''DOE'') (lower (full_name c))) (customers test_db)
            = None"
    by code_simp
  from c1 c2 m1 m2 w1 w2 a show ?thesis
    by (simp only: f1 f2 f3 e1 e2 e3 simp_thms)
qed

text \<open>
  As it is stated, C9 fails: the name is a pattern, not a substring. A name with
  wildcards that the stored full name does not contain passes.
\<close>

theorem C9_counterexample:
  "\<not> contains (lower ''J_hn D%e'') (lower (full_name test_customer)) \<and>
   find_customer test_db ''J_hn D%e'' ''1234567890'' = Some test_customer"
  by code_simp

section \<open>Properties of the record update\<close>

lemma same_but_contact_refl: "same_but_contact c c"
  by (simp add: same_but_contact_def)

lemma same_but_contact_set_field: "same_but_contact c (set_field f v c)"
  by (simp add: same_but_contact_def set_field_def)

lemma same_but_contact_trans:
  "same_but_contact a b \<Longrightarrow> same_but_contact b c \<Longrightarrow> same_but_contact a c"
  by (simp add: same_but_contact_def)

lemma apply_updates_frame:
  "apply_updates us c = (c', fs) \<Longrightarrow> same_but_contact c c'"
proof (induction us arbitrary: c c' fs)
  case Nil
  then show ?case by (simp add: same_but_contact_refl)
next
  case (Cons u us)
  obtain f v where u: "u = (f, v)" by (cases u)
  show ?case
  proof (cases "f \<in> set updatable_fields")
    case True
    obtain c1 fs1 where r: "apply_updates us (set_field f v c) = (c1, fs1)"
      by (cases "apply_updates us (set_field f v c)")
    with Cons.prems u True have "c' = c1" by simp
    moreover from Cons.IH [OF r] have "same_but_contact (set_field f v c) c1" .
    ultimately show ?thesis
      using same_but_contact_set_field same_but_contact_trans by blast
  next
    case False
    with Cons.prems u have "apply_updates us c = (c', fs)" by simp
    then show ?thesis by (rule Cons.IH)
  qed
qed

lemma apply_updates_none:
  "\<forall>f \<in> set (map fst us). f \<notin> set updatable_fields \<Longrightarrow> apply_updates us c = (c, [])"
  by (induction us arbitrary: c) auto

lemma update_first_found:
  assumes "\<And>x. R x x" "find P xs = Some c" "R c y"
  shows "list_all2 R xs (update_first P (\<lambda>_. y) xs)"
  using assms(2)
proof (induction xs)
  case Nil
  then show ?case by simp
next
  case (Cons x xs)
  show ?case
  proof (cases "P x")
    case True
    with Cons.prems have "x = c" by simp
    then show ?thesis using True assms(1,3) by (simp add: list_all2_refl)
  next
    case False
    with Cons.prems have "find P xs = Some c" by simp
    then have "list_all2 R xs (update_first P (\<lambda>_. y) xs)" by (rule Cons.IH)
    then show ?thesis using False assms(1) by simp
  qed
qed

lemma update_first_other:
  "\<not> P (xs ! i) \<Longrightarrow> i < length xs \<Longrightarrow> update_first P f xs ! i = xs ! i"
proof (induction xs arbitrary: i)
  case Nil
  then show ?case by simp
next
  case (Cons x xs)
  show ?case
  proof (cases i)
    case 0
    with Cons.prems show ?thesis by simp
  next
    case (Suc j)
    with Cons.prems Cons.IH [of j] show ?thesis by simp
  qed
qed

text \<open>
  Claim C10. A call of \<open>update_customer_record\<close> leaves every column of every customer
  row but \<open>email\<close>, \<open>phone\<close>, \<open>address\<close> and \<open>updated_at\<close> as it was, the rows of other
  customers and the other tables entirely; a call whose updates name no updatable field
  fails and changes nothing.
\<close>

theorem C10_update_frame:
  assumes "update_customer_record d now cid updates = (res, d')"
  shows "list_all2 same_but_contact (customers d) (customers d') \<and>
         (\<forall>i < length (customers d).
            customer_id (customers d ! i) \<noteq> cid \<longrightarrow> customers d' ! i = customers d ! i) \<and>
         sessions d' = sessions d \<and> conversations d' = conversations d \<and>
         ((\<forall>f \<in> set (map fst updates). f \<notin> set updatable_fields) \<longrightarrow>
            \<not> success res \<and> d' = d)"
proof (cases "find (\<lambda>c. customer_id c = cid) (customers d)")
  case None
  with assms have "d' = d" "\<not> success res"
    by (auto simp: update_customer_record_def update_failure_def)
  then show ?thesis by (simp add: list_all2_refl same_but_contact_refl)
next
  case (Some c)
  obtain c' fs where a: "apply_updates updates c = (c', fs)"
    by (cases "apply_updates updates c")
  have frame: "same_but_contact c (c'\<lparr>updated_at := Some now\<rparr>)"
    using apply_updates_frame [OF a] by (simp add: same_but_contact_def)
  have none: "(\<forall>f \<in> set (map fst updates). f \<notin> set updatable_fields) \<Longrightarrow> fs = []"
    using apply_updates_none [of updates c] a by simp
  show ?thesis
  proof (cases "fs = [] \<or> (email c' \<noteq> email c \<and> email c' \<in> set (map email (customers d)))")
    case True
    let ?dup = "email c' \<noteq> email c \<and> email c' \<in> set (map email (customers d))"
    have "\<exists>msg. (res, d') = (update_failure msg, d)"
    proof (cases "fs = []")
      case True
      with assms Some a show ?thesis
        by (auto simp: update_customer_record_def)
    next
      case False
      with True have ?dup by blast
      with assms Some a False show ?thesis
        by (auto simp: update_customer_record_def simp del: set_map)
    qed
    then have "d' = d" "\<not> success res"
      by (auto simp: update_failure_def)
    then show ?thesis by (simp add: list_all2_refl same_but_contact_refl)
  next
    case False
    with assms Some a have d': "d' = d\<lparr>customers := update_first (\<lambda>c. customer_id c = cid)
                       (\<lambda>_. c'\<lparr>updated_at := Some now\<rparr>) (customers d)\<rparr>"
      by (auto simp: update_customer_record_def simp del: set_map split: if_splits)
    have "list_all2 same_but_contact (customers d)
            (update_first (\<lambda>c. customer_id c = cid) (\<lambda>_. c'\<lparr>updated_at := Some now\<rparr>) (customers d))"
      by (rule update_first_found [OF same_but_contact_refl Some frame])
    moreover have "\<forall>i < length (customers d).
            customer_id (customers d ! i) \<noteq> cid \<longrightarrow>
            update_first (\<lambda>c. customer_id c = cid) (\<lambda>_. c'\<lparr>updated_at := Some now\<rparr>) (customers d) ! i
              = customers d ! i"
      by (simp add: update_first_other)
    moreover have "fs \<noteq> []" using False by simp
    ultimately show ?thesis using d' none by auto
  qed
qed

theorem C10_update_frame_witness:
  "update_customer_record test_db 5 ''test123'' [(''account_balance'', ''999999'')]
     = (update_failure ''No valid fields to update'', test_db) \<and>
   ''account_balance'' \<notin> set updatable_fields \<and>
   \<not> success (update_failure ''No valid fields to update'') \<and>
   success (fst (update_customer_record two_customers 5 ''test123''
                   [(''phone'', ''555-0123''), (''account_balance'', ''999999'')])) \<and>
   customer_id (customers two_customers ! 1) \<noteq> ''test123'' \<and>
   list_all2 same_but_contact (customers two_customers)
     (customers (snd (update_customer_record two_customers 5 ''test123''
                   [(''phone'', ''555-0123''), (''account_balance'', ''999999'')]))) \<and>
   customers (snd (update_customer_record two_customers 5 ''test123''
                   [(''phone'', ''555-0123''), (''account_balance'', ''999999'')])) ! 1
     = customers two_customers ! 1"
proof -
  let ?u = "update_customer_record two_customers 5 ''test123''
              [(''phone'', ''555-0123''), (''account_balance'', ''999999'')]"
  have h: "update_customer_record test_db 5 ''test123'' [(''account_balance'', ''999999'')]
     = (update_failure ''No valid fields to update'', test_db)"
    by code_simp
  have k0: "''account_balance'' \<notin> set updatable_fields" by code_simp
  then have k: "\<forall>f \<in> set (map fst [(''account_balance'', ''999999'')]). f \<notin> set updatable_fields"
    by simp
  have s: "success (fst ?u)" by code_simp
  have o: "customer_id (customers two_customers ! 1) \<noteq> ''test123''" by code_simp
  have l: "1 < length (customers two_customers)" by code_simp
  have e: "?u = (fst ?u, snd ?u)" by simp
  from C10_update_frame [OF h] k h have "\<not> success (update_failure ''No valid fields to update'')"
    by blast
  moreover from C10_update_frame [OF e] o l
  have "list_all2 same_but_contact (customers two_customers) (customers (snd ?u))"
    and "customers (snd ?u) ! 1 = customers two_customers ! 1"
    by blast+
  ultimately show ?thesis using h k0 s o by blast
qed

section \<open>Properties of the verification state machine\<close>

lemma verify_first_step_not_verified:
  "\<not> verified (fst (verify_customer_identity d now sid name acc None))"
  by (simp add: verify_customer_identity_def verification_failure_def split: option.splits)

lemma verify_first_step_store:
  "snd (verify_customer_identity d now sid name acc None) = d"
  by (simp add: verify_customer_identity_def split: option.splits)

lemma verify_first_step_question:
  assumes "find_customer d name acc = Some c" "account_status c = ''active''" "login_attempts c < 3"
  shows "verify_customer_identity d now sid name acc None =
           (\<lparr>verified = False,
             message = ''Please answer your security question: '' @ security_question c,
             requires_security_question = Some True,
             v_customer_id = Some (customer_id c),
             remaining_attempts = None, customer_name = None\<rparr>, d)"
  using assms by (simp add: verify_customer_identity_def)

lemma verify_verified_iff:
  "verified (fst (verify_customer_identity d now sid name acc ans)) =
     (\<exists>c a. find_customer d name acc = Some c \<and> account_status c = ''active'' \<and>
            login_attempts c < 3 \<and> ans = Some a \<and> a \<noteq> [] \<and>
            verify_security_answer (security_answer c) a)"
  by (cases ans)
     (auto simp: verify_customer_identity_def verification_failure_def split: option.splits)

lemma handle_with_credentials:
  assumes "extract_credentials msg ents = Inr (Some name, Some acc)" "name \<noteq> []" "acc \<noteq> []"
    and "verify_customer_identity d now sid name acc None = (result, d')"
  shows "handle_identity_verification d now sid msg s ents =
     Inr (if verified result then
            ((reply (message result @ '' What can I help you with today?'') sid)
               \<lparr>r_verified := Some True, r_customer_id := v_customer_id result,
                tools_used := Some [''verify_customer_identity'']\<rparr>,
             s\<lparr>s_is_verified := True, s_customer_id := v_customer_id result\<rparr>, d')
          else if requires_security_question result = Some True then
            ((reply (message result) sid)
               \<lparr>r_requires_security_question := Some True,
                r_customer_id := v_customer_id result,
                tools_used := Some [''verify_customer_identity'']\<rparr>,
             s\<lparr>awaiting_security_answer := True,
               temp_customer_id := v_customer_id result,
               temp_name := Some name, temp_account := Some acc\<rparr>, d')
          else
            ((reply (message result) sid)
               \<lparr>verification_failed := Some True,
                tools_used := Some [''verify_customer_identity'']\<rparr>, s, d'))"
  using assms by (simp add: handle_identity_verification_def truthy_def)

lemma handle_became_verified:
  assumes "handle_identity_verification d now sid msg s ents = Inr (r, s', d')"
    and "\<not> s_is_verified s" "s_is_verified s'"
  shows "awaiting_security_answer s \<and>
         verified (fst (verify_customer_identity d now sid
                          (case temp_name s of None \<Rightarrow> [] | Some n \<Rightarrow> n)
                          (case temp_account s of None \<Rightarrow> [] | Some a \<Rightarrow> a) (Some msg)))"
proof (cases "extract_credentials msg ents")
  case (Inl e)
  with assms(1) show ?thesis by (simp add: handle_identity_verification_def)
next
  case (Inr p)
  obtain name acc where p: "p = (name, acc)" by (cases p)
  show ?thesis
  proof (cases "truthy name \<and> truthy acc")
    case True
    obtain result d1 where v: "verify_customer_identity d now sid (the name) (the acc) None = (result, d1)"
      by (cases "verify_customer_identity d now sid (the name) (the acc) None")
    have "\<not> verified result"
      using verify_first_step_not_verified [of d now sid "the name" "the acc"] v by simp
    with assms Inr p True v show ?thesis
      by (auto simp: handle_identity_verification_def split: if_splits)
  next
    case False
    show ?thesis
    proof (cases "awaiting_security_answer s \<and> truthy (temp_customer_id s)")
      case True
      let ?v = "verify_customer_identity d now sid
                  (case temp_name s of None \<Rightarrow> [] | Some n \<Rightarrow> n)
                  (case temp_account s of None \<Rightarrow> [] | Some a \<Rightarrow> a) (Some msg)"
      obtain result d1 where v: "?v = (result, d1)" by (cases ?v)
      have "verified result"
      proof (rule ccontr)
        assume "\<not> verified result"
        with assms Inr p False True v have "s_is_verified s' = s_is_verified s"
          by (auto simp: handle_identity_verification_def clear_attempt_def split: if_splits)
        with assms(2,3) show False by simp
      qed
      with True v show ?thesis by simp
    next
      case nothing: False
      with assms Inr p False have "s' = s"
        by (auto simp: handle_identity_verification_def split: if_splits)
      with assms(2,3) show ?thesis by simp
    qed
  qed
qed

text \<open>
  Claim C2, amended. A message from which the handler takes a name and an account
  number never verifies the session: the call asks no security answer of the tool, the
  response is not \<open>verified\<close> and the flag \<open>is_verified\<close> of the session stays as it
  was. Where the pair matches an active customer with fewer than three failed attempts,
  the response is the security question and the session awaits the answer with the
  candidate name and account. A session that was not verified is verified by a call
  only if it was awaiting the answer and the message is the right answer of the
  customer that the stored name and account match.
\<close>

theorem C2_question_before_verified:
  "(extract_credentials msg ents = Inr (Some name, Some acc) \<and> name \<noteq> [] \<and> acc \<noteq> [] \<longrightarrow>
      (\<exists>r s'. handle_identity_verification d now sid msg s ents = Inr (r, s', d) \<and>
         r_verified r = None \<and> s_is_verified s' = s_is_verified s \<and>
         (\<forall>c. find_customer d name acc = Some c \<and> account_status c = ''active'' \<and>
               login_attempts c < 3 \<longrightarrow>
            r_response r = ''Please answer your security question: '' @ security_question c \<and>
            r_requires_security_question r = Some True \<and>
            s' = s\<lparr>awaiting_security_answer := True,
                    temp_customer_id := Some (customer_id c),
                    temp_name := Some name, temp_account := Some acc\<rparr>))) \<and>
   (handle_identity_verification d now sid msg s ents = Inr (r2, s2, d2) \<and>
    \<not> s_is_verified s \<and> s_is_verified s2 \<longrightarrow>
      awaiting_security_answer s \<and>
      (\<exists>c. find_customer d (case temp_name s of None \<Rightarrow> [] | Some n \<Rightarrow> n)
                           (case temp_account s of None \<Rightarrow> [] | Some a \<Rightarrow> a) = Some c \<and>
           verify_security_answer (security_answer c) msg))"
proof (intro conjI impI)
  assume h: "extract_credentials msg ents = Inr (Some name, Some acc) \<and> name \<noteq> [] \<and> acc \<noteq> []"
  obtain result where v: "verify_customer_identity d now sid name acc None = (result, d)"
    using verify_first_step_store [of d now sid name acc]
    by (cases "verify_customer_identity d now sid name acc None") simp
  have nv: "\<not> verified result"
    using verify_first_step_not_verified [of d now sid name acc] v by simp
  let ?out = "handle_identity_verification d now sid msg s ents"
  have out: "?out =
     Inr (if requires_security_question result = Some True then
            ((reply (message result) sid)
               \<lparr>r_requires_security_question := Some True,
                r_customer_id := v_customer_id result,
                tools_used := Some [''verify_customer_identity'']\<rparr>,
             s\<lparr>awaiting_security_answer := True,
               temp_customer_id := v_customer_id result,
               temp_name := Some name, temp_account := Some acc\<rparr>, d)
          else
            ((reply (message result) sid)
               \<lparr>verification_failed := Some True,
                tools_used := Some [''verify_customer_identity'']\<rparr>, s, d))"
    using handle_with_credentials [of msg ents name acc d now sid result d s] h v nv by simp
  have q: "find_customer d name acc = Some c \<and> account_status c = ''active'' \<and>
           login_attempts c < 3 \<Longrightarrow>
           result = \<lparr>verified = False,
             message = ''Please answer your security question: '' @ security_question c,
             requires_security_question = Some True,
             v_customer_id = Some (customer_id c),
             remaining_attempts = None, customer_name = None\<rparr>" for c
    using verify_first_step_question [of d name acc c now sid] v by simp
  show "\<exists>r s'. ?out = Inr (r, s', d) \<and>
         r_verified r = None \<and> s_is_verified s' = s_is_verified s \<and>
         (\<forall>c. find_customer d name acc = Some c \<and> account_status c = ''active'' \<and>
               login_attempts c < 3 \<longrightarrow>
            r_response r = ''Please answer your security question: '' @ security_question c \<and>
            r_requires_security_question r = Some True \<and>
            s' = s\<lparr>awaiting_security_answer := True,
                    temp_customer_id := Some (customer_id c),
                    temp_name := Some name, temp_account := Some acc\<rparr>)"
  proof (cases "requires_security_question result = Some True")
    case True
    with out have "?out = Inr ((reply (message result) sid)
               \<lparr>r_requires_security_question := Some True,
                r_customer_id := v_customer_id result,
                tools_used := Some [''verify_customer_identity'']\<rparr>,
             s\<lparr>awaiting_security_answer := True,
               temp_customer_id := v_customer_id result,
               temp_name := Some name, temp_account := Some acc\<rparr>, d)" by simp
    moreover have "\<forall>c. find_customer d name acc = Some c \<and> account_status c = ''active'' \<and>
               login_attempts c < 3 \<longrightarrow>
               message result = ''Please answer your security question: '' @ security_question c \<and>
               v_customer_id result = Some (customer_id c)"
      using q by auto
    ultimately show ?thesis by (simp add: reply_def)
  next
    case False
    with out have "?out = Inr ((reply (message result) sid)
               \<lparr>verification_failed := Some True,
                tools_used := Some [''verify_customer_identity'']\<rparr>, s, d)" by simp
    moreover have "\<forall>c. \<not> (find_customer d name acc = Some c \<and> account_status c = ''active'' \<and>
               login_attempts c < 3)"
      using q False by auto
    ultimately show ?thesis by (simp add: reply_def)
  qed
next
  assume h: "handle_identity_verification d now sid msg s ents = Inr (r2, s2, d2) \<and>
    \<not> s_is_verified s \<and> s_is_verified s2"
  then have a: "awaiting_security_answer s" and
    v: "verified (fst (verify_customer_identity d now sid
                          (case temp_name s of None \<Rightarrow> [] | Some n \<Rightarrow> n)
                          (case temp_account s of None \<Rightarrow> [] | Some a \<Rightarrow> a) (Some msg)))"
    using handle_became_verified [of d now sid msg s ents r2 s2 d2] by simp_all
  from a show "awaiting_security_answer s" .
  from v show "\<exists>c. find_customer d (case temp_name s of None \<Rightarrow> [] | Some n \<Rightarrow> n)
                           (case temp_account s of None \<Rightarrow> [] | Some a \<Rightarrow> a) = Some c \<and>
           verify_security_answer (security_answer c) msg"
    unfolding verify_verified_iff by auto
qed

theorem C2_question_before_verified_witness:
  "extract_credentials credentials_message (entities (analyze_intent credentials_message))
     = Inr (Some ''John Doe'', Some ''1234567890'') \<and>
   find_customer test_db ''John Doe'' ''1234567890'' = Some test_customer \<and>
   account_status test_customer = ''active'' \<and> login_attempts test_customer < 3 \<and>
   (\<exists>r. handle_identity_verification test_db 1 ''s1'' credentials_message fresh_session
            (entities (analyze_intent credentials_message))
          = Inr (r, awaiting_session, test_db) \<and>
        r_response r = ''Please answer your security question: What is your pet's name?'' \<and>
        r_requires_security_question r = Some True \<and> r_verified r = None) \<and>
   \<not> s_is_verified awaiting_session \<and>
   (\<exists>r s' d'. handle_identity_verification test_db 2 ''s1'' ''fluffy'' awaiting_session no_entities
                 = Inr (r, s', d') \<and> s_is_verified s') \<and>
   awaiting_security_answer awaiting_session \<and>
   (\<exists>c. find_customer test_db ''John Doe'' ''1234567890'' = Some c \<and>
        verify_security_answer (security_answer c) ''fluffy'')"
proof -
  let ?ents = "entities (analyze_intent credentials_message)"
  have e: "extract_credentials credentials_message ?ents = Inr (Some ''John Doe'', Some ''1234567890'')"
    by code_simp
  have f: "find_customer test_db ''John Doe'' ''1234567890'' = Some test_customer"
    by code_simp
  have a: "account_status test_customer = ''active''" "login_attempts test_customer < 3"
    by code_simp+
  have n: "\<not> s_is_verified awaiting_session" by code_simp
  have t: "temp_name awaiting_session = Some ''John Doe''"
          "temp_account awaiting_session = Some ''1234567890''"
    by code_simp+
  have w: "fresh_session\<lparr>awaiting_security_answer := True,
             temp_customer_id := Some (customer_id test_customer),
             temp_name := Some ''John Doe'', temp_account := Some ''1234567890''\<rparr>
           = awaiting_session"
    by (simp add: awaiting_session_def test_customer_def)
  have q: "security_question test_customer = ''What is your pet's name?''"
    by (simp add: test_customer_def)
  let ?o = "handle_identity_verification test_db 2 ''s1'' ''fluffy'' awaiting_session no_entities"
  have "case ?o of Inl _ \<Rightarrow> False | Inr (r, s', d') \<Rightarrow> s_is_verified s'"
    by code_simp
  then obtain r2 s2 d2 where o: "?o = Inr (r2, s2, d2)" "s_is_verified s2"
    by (cases ?o) auto
  note main = C2_question_before_verified
  have "extract_credentials credentials_message ?ents = Inr (Some ''John Doe'', Some ''1234567890'')
          \<and> ''John Doe'' \<noteq> [] \<and> ''1234567890'' \<noteq> []"
    using e by simp
  then have "\<exists>r s'. handle_identity_verification test_db 1 ''s1'' credentials_message fresh_session ?ents
           = Inr (r, s', test_db) \<and> r_verified r = None \<and>
         s_is_verified s' = s_is_verified fresh_session \<and>
         (\<forall>c. find_customer test_db ''John Doe'' ''1234567890'' = Some c \<and>
                account_status c = ''active'' \<and> login_attempts c < 3 \<longrightarrow>
             r_response r = ''Please answer your security question: '' @ security_question c \<and>
             r_requires_security_question r = Some True \<and>
             s' = fresh_session\<lparr>awaiting_security_answer := True,
                    temp_customer_id := Some (customer_id c),
                    temp_name := Some ''John Doe'', temp_account := Some ''1234567890''\<rparr>)"
    by (rule mp [OF conjunct1 [OF main [of credentials_message ?ents "''John Doe''"
                   "''1234567890''" test_db 1 "''s1''" fresh_session]]])
  then obtain r s' where
    hr: "handle_identity_verification test_db 1 ''s1'' credentials_message fresh_session ?ents
           = Inr (r, s', test_db)" and hv: "r_verified r = None"
    and hs: "s_is_verified s' = s_is_verified fresh_session"
    and al: "\<forall>c. find_customer test_db ''John Doe'' ''1234567890'' = Some c \<and>
                account_status c = ''active'' \<and> login_attempts c < 3 \<longrightarrow>
             r_response r = ''Please answer your security question: '' @ security_question c \<and>
             r_requires_security_question r = Some True \<and>
             s' = fresh_session\<lparr>awaiting_security_answer := True,
                    temp_customer_id := Some (customer_id c),
                    temp_name := Some ''John Doe'', temp_account := Some ''1234567890''\<rparr>"
    by (elim exE conjE) (rule that)
  from al f a have
    "r_response r = ''Please answer your security question: '' @ security_question test_customer"
    "r_requires_security_question r = Some True"
    "s' = fresh_session\<lparr>awaiting_security_answer := True,
                    temp_customer_id := Some (customer_id test_customer),
                    temp_name := Some ''John Doe'', temp_account := Some ''1234567890''\<rparr>"
    by blast+
  with hr hv w q
  have first: "\<exists>r. handle_identity_verification test_db 1 ''s1'' credentials_message fresh_session ?ents
          = Inr (r, awaiting_session, test_db) \<and>
        r_response r = ''Please answer your security question: What is your pet's name?'' \<and>
        r_requires_security_question r = Some True \<and> r_verified r = None"
    by simp
  from main [of "''fluffy''" no_entities _ _ test_db 2 "''s1''" awaiting_session r2 s2 d2] o n t
  have second: "awaiting_security_answer awaiting_session \<and>
     (\<exists>c. find_customer test_db ''John Doe'' ''1234567890'' = Some c \<and>
          verify_security_answer (security_answer c) ''fluffy'')"
    by simp
  from e f a first n o second show ?thesis by blast
qed

text \<open>
  As it is stated, C2 fails: a message with the name and account number of a customer
  whose account is not active, or who has three failed attempts, is answered with a
  refusal, not with the security question, and the session does not await an answer.
\<close>

theorem C2_counterexample:
  "find_customer suspended_db ''John Doe'' ''1234567890''
     = Some (test_customer\<lparr>account_status := ''suspended''\<rparr>) \<and>
   (case handle_identity_verification suspended_db 1 ''s1'' credentials_message fresh_session
           (entities (analyze_intent credentials_message)) of
      Inl _ \<Rightarrow> False
    | Inr (r, s', d') \<Rightarrow>
        r_response r = ''Account is not active. Please contact customer service.'' \<and>
        r_requires_security_question r = None \<and> verification_failed r = Some True \<and>
        \<not> awaiting_security_answer s') \<and>
   find_customer locked_db ''John Doe'' ''1234567890''
     = Some (test_customer\<lparr>login_attempts := 3\<rparr>) \<and>
   (case handle_identity_verification locked_db 1 ''s1'' credentials_message fresh_session
           (entities (analyze_intent credentials_message)) of
      Inl _ \<Rightarrow> False
    | Inr (r, s', d') \<Rightarrow>
        r_response r = ''Too many failed verification attempts. Please visit a branch.'' \<and>
        r_requires_security_question r = None \<and> verification_failed r = Some True \<and>
        \<not> awaiting_security_answer s')"
  by code_simp

section \<open>Properties of the failure counter\<close>

lemma find_update_first:
  "find P xs = Some c \<Longrightarrow> P (f c) \<Longrightarrow> find P (update_first P f xs) = Some (f c)"
  by (induction xs) (auto split: if_splits)

lemma verify_session_independent:
  "fst (verify_customer_identity d now sid name acc ans)
     = fst (verify_customer_identity d now sid' name acc ans) \<and>
   customers (snd (verify_customer_identity d now sid name acc ans))
     = customers (snd (verify_customer_identity d now sid' name acc ans))"
  by (cases ans) (auto simp: verify_customer_identity_def split: option.splits)

lemma verify_locked:
  assumes "find_customer d name acc = Some c" "account_status c = ''active''"
    "3 \<le> login_attempts c"
  shows "verify_customer_identity d now sid name acc ans =
           (verification_failure ''Too many failed verification attempts. Please visit a branch.'', d)"
  using assms by (simp add: verify_customer_identity_def)

lemma verify_wrong_answer:
  assumes "find_customer d name acc = Some c" "account_status c = ''active''"
    "login_attempts c < 3" "a \<noteq> []" "\<not> verify_security_answer (security_answer c) a"
  shows "verify_customer_identity d now sid name acc (Some a) =
           (\<lparr>verified = False,
             message = ''Incorrect security answer. Please try again.'',
             requires_security_question = Some True,
             v_customer_id = None,
             remaining_attempts = Some (3 - (login_attempts c + 1)),
             customer_name = None\<rparr>,
            d\<lparr>customers := update_first (matches_customer name acc)
                   (\<lambda>c. c\<lparr>login_attempts := login_attempts c + 1, updated_at := Some now\<rparr>)
                   (customers d)\<rparr>)"
  using assms by (simp add: verify_customer_identity_def)

lemma verify_right_answer:
  assumes "find_customer d name acc = Some c" "account_status c = ''active''"
    "login_attempts c < 3" "a \<noteq> []" "verify_security_answer (security_answer c) a"
  shows "customers (snd (verify_customer_identity d now sid name acc (Some a))) =
           update_first (matches_customer name acc)
             (\<lambda>c. c\<lparr>login_attempts := 0, last_login := Some now, is_verified := True,
                     updated_at := Some now\<rparr>)
             (customers d)"
  using assms by (simp add: verify_customer_identity_def)

text \<open>
  Claim C5, amended. The failure counter is the column \<open>login_attempts\<close> of the customer
  row, not a part of the session: the result of a verification call and what it does
  to the customer table are the same for every session identifier; once the counter is
  three, every call for the customer is refused, whatever the session and the answer;
  a wrong answer adds one to it and only a right answer sets it back to zero.
\<close>

theorem C5_counter_on_customer:
  "fst (verify_customer_identity d now sid name acc ans)
     = fst (verify_customer_identity d now sid' name acc ans) \<and>
   customers (snd (verify_customer_identity d now sid name acc ans))
     = customers (snd (verify_customer_identity d now sid' name acc ans)) \<and>
   (find_customer d name acc = Some c \<and> account_status c = ''active'' \<longrightarrow>
      (3 \<le> login_attempts c \<longrightarrow>
         verify_customer_identity d now sid name acc ans =
           (verification_failure ''Too many failed verification attempts. Please visit a branch.'', d)) \<and>
      (login_attempts c < 3 \<and> ans = Some a \<and> a \<noteq> [] \<and>
       \<not> verify_security_answer (security_answer c) a \<longrightarrow>
         find_customer (snd (verify_customer_identity d now sid name acc ans)) name acc
           = Some (c\<lparr>login_attempts := login_attempts c + 1, updated_at := Some now\<rparr>)) \<and>
      (login_attempts c < 3 \<and> ans = Some a \<and> a \<noteq> [] \<and>
       verify_security_answer (security_answer c) a \<longrightarrow>
         find_customer (snd (verify_customer_identity d now sid name acc ans)) name acc
           = Some (c\<lparr>login_attempts := 0, last_login := Some now, is_verified := True,
                     updated_at := Some now\<rparr>)))"
proof (intro conjI impI)
  show "fst (verify_customer_identity d now sid name acc ans)
     = fst (verify_customer_identity d now sid' name acc ans)"
    using verify_session_independent by blast
  show "customers (snd (verify_customer_identity d now sid name acc ans))
     = customers (snd (verify_customer_identity d now sid' name acc ans))"
    using verify_session_independent by blast
next
  assume "find_customer d name acc = Some c \<and> account_status c = ''active''"
    and "3 \<le> login_attempts c"
  then show "verify_customer_identity d now sid name acc ans =
           (verification_failure ''Too many failed verification attempts. Please visit a branch.'', d)"
    by (simp add: verify_locked)
next
  assume c: "find_customer d name acc = Some c \<and> account_status c = ''active''"
    and w: "login_attempts c < 3 \<and> ans = Some a \<and> a \<noteq> [] \<and>
       \<not> verify_security_answer (security_answer c) a"
  from c have f: "find (matches_customer name acc) (customers d) = Some c"
    by (simp add: find_customer_def)
  then have m: "matches_customer name acc c" by (simp add: find_satisfies)
  have "find (matches_customer name acc)
          (update_first (matches_customer name acc)
             (\<lambda>c. c\<lparr>login_attempts := login_attempts c + 1, updated_at := Some now\<rparr>) (customers d))
        = Some (c\<lparr>login_attempts := login_attempts c + 1, updated_at := Some now\<rparr>)"
    using f m by (intro find_update_first) (simp_all add: matches_customer_def)
  moreover have "snd (verify_customer_identity d now sid name acc ans) =
            d\<lparr>customers := update_first (matches_customer name acc)
                   (\<lambda>c. c\<lparr>login_attempts := login_attempts c + 1, updated_at := Some now\<rparr>)
                   (customers d)\<rparr>"
    using c w verify_wrong_answer [of d name acc c a now sid] by simp
  ultimately show "find_customer (snd (verify_customer_identity d now sid name acc ans)) name acc
           = Some (c\<lparr>login_attempts := login_attempts c + 1, updated_at := Some now\<rparr>)"
    by (simp add: find_customer_def)
next
  assume c: "find_customer d name acc = Some c \<and> account_status c = ''active''"
    and w: "login_attempts c < 3 \<and> ans = Some a \<and> a \<noteq> [] \<and>
       verify_security_answer (security_answer c) a"
  from c have f: "find (matches_customer name acc) (customers d) = Some c"
    by (simp add: find_customer_def)
  then have m: "matches_customer name acc c" by (simp add: find_satisfies)
  have "find (matches_customer name acc)
          (update_first (matches_customer name acc)
             (\<lambda>c. c\<lparr>login_attempts := 0, last_login := Some now, is_verified := True,
                     updated_at := Some now\<rparr>) (customers d))
        = Some (c\<lparr>login_attempts := 0, last_login := Some now, is_verified := True,
                     updated_at := Some now\<rparr>)"
    using f m by (intro find_update_first) (simp_all add: matches_customer_def)
  moreover have "customers (snd (verify_customer_identity d now sid name acc ans)) =
           update_first (matches_customer name acc)
             (\<lambda>c. c\<lparr>login_attempts := 0, last_login := Some now, is_verified := True,
                     updated_at := Some now\<rparr>)
             (customers d)"
    using c w verify_right_answer [of d name acc c a now sid] by simp
  ultimately show "find_customer (snd (verify_customer_identity d now sid name acc ans)) name acc
           = Some (c\<lparr>login_attempts := 0, last_login := Some now, is_verified := True,
                     updated_at := Some now\<rparr>)"
    by (simp add: find_customer_def)
qed

theorem C5_counter_on_customer_witness:
  "find_customer test_db ''John Doe'' ''1234567890'' = Some test_customer \<and>
   account_status test_customer = ''active'' \<and> login_attempts test_customer < 3 \<and>
   \<not> verify_security_answer (security_answer test_customer) ''rex'' \<and>
   find_customer (snd (verify_customer_identity test_db 5 ''s1'' ''John Doe'' ''1234567890''
                         (Some ''rex''))) ''John Doe'' ''1234567890''
     = Some (test_customer\<lparr>login_attempts := 1, updated_at := Some 5\<rparr>) \<and>
   find_customer locked_db ''John Doe'' ''1234567890'' = Some (test_customer\<lparr>login_attempts := 3\<rparr>) \<and>
   verify_customer_identity locked_db 5 ''s2'' ''John Doe'' ''1234567890'' (Some ''fluffy'') =
     (verification_failure ''Too many failed verification attempts. Please visit a branch.'',
      locked_db)"
proof -
  have f: "find_customer test_db ''John Doe'' ''1234567890'' = Some test_customer"
    and a: "account_status test_customer = ''active''"
    and l: "login_attempts test_customer < 3"
    and w: "\<not> verify_security_answer (security_answer test_customer) ''rex''"
    and la: "login_attempts test_customer + 1 = 1"
    by code_simp+
  have f3: "find_customer locked_db ''John Doe'' ''1234567890''
              = Some (test_customer\<lparr>login_attempts := 3\<rparr>)"
    and a3: "account_status (test_customer\<lparr>login_attempts := 3\<rparr>) = ''active''"
    and l3: "3 \<le> login_attempts (test_customer\<lparr>login_attempts := 3\<rparr>)"
    by code_simp+
  note main = C5_counter_on_customer
  have "find_customer (snd (verify_customer_identity test_db 5 ''s1'' ''John Doe'' ''1234567890''
                         (Some ''rex''))) ''John Doe'' ''1234567890''
     = Some (test_customer\<lparr>login_attempts := login_attempts test_customer + 1,
                            updated_at := Some 5\<rparr>)"
    using main [of test_db 5 "''s1''" "''John Doe''" "''1234567890''" "Some ''rex''" "''s1''"
                  test_customer "''rex''"] f a l w
    by simp
  moreover have "verify_customer_identity locked_db 5 ''s2'' ''John Doe'' ''1234567890'' (Some ''fluffy'') =
     (verification_failure ''Too many failed verification attempts. Please visit a branch.'',
      locked_db)"
    using main [of locked_db 5 "''s2''" "''John Doe''" "''1234567890''" "Some ''fluffy''" "''s2''"
                  "test_customer\<lparr>login_attempts := 3\<rparr>"] f3 a3 l3
    by simp
  ultimately show ?thesis using f a l w la f3 by simp
qed

text \<open>
  As it is stated, C5 fails: after two wrong answers in one session and one in a second
  session, a third, new session is refused at its first attempt.
\<close>

theorem C5_counterexample:
  "map login_attempts (customers (db after_second_session)) = [3] \<and>
   map r_response
     (fst (process_messages offline_tools (create_session after_second_session 20 ''s3'' None)
             ''s3'' [(21, credentials_message)]))
     = [''Too many failed verification attempts. Please visit a branch.'']"
  by code_simp

section \<open>Properties of the dialogue\<close>

text \<open>
  The override of \<open>_generate_response\<close>, taken by itself: on a history whose last entry
  is a turn of the assistant that asks for the full name and account number, a message
  with an account number or the word \<open>name\<close> gets the intent \<open>identity_verification\<close>.
\<close>

lemma context_override_after_request:
  assumes "conversation_history s \<noteq> []"
    and "t_role (last (conversation_history s)) = ''assistant''"
    and "contains ''provide your full name and account number''
           (t_message (last (conversation_history s)))"
    and "truthy (e_account_number ents) \<or> contains ''name'' (lower msg)"
  shows "context_override s msg intent ents = ''identity_verification''"
  using assms by (cases "conversation_history s") (auto simp: context_override_def Let_def)

text \<open>
  Claim C4, on the code. From the session that awaits the answer of John Doe, who has no
  failed attempt, the third wrong answer is answered like the first two: the session
  still awaits an answer and keeps the candidate name and account, although the counter
  of the customer is three. Only a fourth message, here the right answer, is refused
  with the direction to a branch and clears the attempt.
\<close>

theorem C4_third_wrong_answer:
  "(case handle_answers test_db ''s1'' awaiting_session [(1, ''rex''), (2, ''rex''), (3, ''rex'')] of
      Inl _ \<Rightarrow> False
    | Inr (rs, s, d) \<Rightarrow>
        map r_response rs = replicate 3 ''Incorrect security answer. Please try again.'' \<and>
        s = awaiting_session \<and>
        map login_attempts (customers d) = [3]) \<and>
   (case handle_answers test_db ''s1'' awaiting_session
           [(1, ''rex''), (2, ''rex''), (3, ''rex''), (4, ''fluffy'')] of
      Inl _ \<Rightarrow> False
    | Inr (rs, s, d) \<Rightarrow>
        r_response (last rs) = ''Too many failed verification attempts. Please visit a branch.'' \<and>
        s = clear_attempt awaiting_session \<and> \<not> s_is_verified s)"
  by code_simp

text \<open>
  Claim C1, on the code. In the scenario of the tests the third message, the security
  answer, has the intent \<open>general_inquiry\<close> and no account number, so it does not reach
  the verification handler; the session stays unverified and the fourth message is
  answered with the request for verification, without the balance and without a tool.
\<close>

theorem C1_scenario:
  "(case process_messages offline_tools (create_session test_agent 0 ''s1'' None) ''s1'' scenario of
      (rs, A) \<Rightarrow>
        map r_response rs = [verification_request,
          ''Please answer your security question: What is your pet's name?'',
          default_reply, verification_request] \<and>
        primary_intent (analyze_intent ''fluffy'') = ''general_inquiry'' \<and>
        requires_verification (rs ! 3) = Some True \<and> tools_used (rs ! 3) = None \<and>
        map_option s_is_verified (active_sessions A ''s1'') = Some False \<and>
        map_option awaiting_security_answer (active_sessions A ''s1'') = Some True)"
  by code_simp

text \<open>
  Claim C6, on the code. \<open>process_message\<close> stores the message of the user before it
  reads the history, so the last entry that \<open>_generate_response\<close> sees is that message,
  not the turn of the assistant before it. After the assistant has asked for the full name
  and account number, a message with the word \<open>name\<close> keeps the intent of the
  classifier and gets the default answer; with the history as it was before the message
  the override gives \<open>identity_verification\<close>.
\<close>

theorem C6_override_not_reached:
  "(case process_messages offline_tools (create_session test_agent 0 ''s1'' None) ''s1''
           [(1, ''What's my balance?''), (2, ''The name on the account is Bob'')] of
      (rs, A) \<Rightarrow>
        contains ''provide your full name and account number'' (r_response (rs ! 0)) \<and>
        contains ''name'' (lower ''The name on the account is Bob'') \<and>
        primary_intent (analyze_intent ''The name on the account is Bob'') = ''general_inquiry'' \<and>
        r_response (rs ! 1) = default_reply \<and> requires_verification (rs ! 1) = None \<and>
        (case active_sessions A ''s1'' of
           None \<Rightarrow> False
         | Some s \<Rightarrow>
             map t_role (conversation_history s) = [''user'', ''assistant'', ''user''] \<and>
             context_override s ''The name on the account is Bob'' ''general_inquiry'' no_entities
               = ''general_inquiry'' \<and>
             context_override (s\<lparr>conversation_history := butlast (conversation_history s)\<rparr>)
               ''The name on the account is Bob'' ''general_inquiry'' no_entities
               = ''identity_verification''))"
  by code_simp

section \<open>Properties of the verification requirement for sensitive intents\<close>

lemma insort_key_last:
  "f y \<le> f x \<Longrightarrow> insort_key f y (ys @ [x]) = insort_key f y ys @ [x]"
  by (induction ys) auto

lemma sort_key_last:
  "\<forall>y \<in> set xs. f y \<le> f x \<Longrightarrow> sort_key f (xs @ [x]) = sort_key f xs @ [x]"
proof (induction xs)
  case Nil
  show ?case by simp
next
  case (Cons y ys)
  then have "sort_key f (ys @ [x]) = sort_key f ys @ [x]" by simp
  moreover have "f y \<le> f x" using Cons.prems by simp
  ultimately show ?case by (simp add: insort_key_last)
qed

lemma history_ends_with_message:
  assumes "\<forall>c \<in> set (conversations d). c_created_at c \<le> now"
  shows "get_conversation_history (save_conversation_message d now sid ''user'' msg cid None) now sid
           = get_conversation_history d now sid
             @ [\<lparr>t_role = ''user'', t_message = msg, t_timestamp = now\<rparr>]"
proof -
  let ?P = "\<lambda>c. c_session_id c = sid \<and> now - 8 * 3600 \<le> c_created_at c"
  let ?new = "\<lparr>c_session_id = sid, c_customer_id = cid, c_role = ''user'', c_message = msg,
               c_created_at = now, c_extra_data = None\<rparr>"
  have "filter ?P (conversations d @ [?new]) = filter ?P (conversations d) @ [?new]"
    by simp
  moreover have "\<forall>c \<in> set (filter ?P (conversations d)). c_created_at c \<le> c_created_at ?new"
    using assms by simp
  ultimately have "sort_key c_created_at (filter ?P (conversations d @ [?new]))
                     = sort_key c_created_at (filter ?P (conversations d)) @ [?new]"
    by (simp only: sort_key_last)
  then show ?thesis
    by (simp add: get_conversation_history_def save_conversation_message_def)
qed

lemma no_override_after_user_turn:
  assumes "conversation_history s = h @ [\<lparr>t_role = ''user'', t_message = m, t_timestamp = t\<rparr>]"
  shows "context_override s msg intent ents = intent"
proof -
  have "t_role (last (conversation_history s)) = ''user''"
    using assms by simp
  then have "t_role (last (conversation_history s)) \<noteq> ''assistant''"
    by simp
  then show ?thesis
    by (cases "conversation_history s") (auto simp: context_override_def Let_def)
qed

lemma sensitive_unverified_response:
  assumes "context_override s msg intent ents = intent" "intent \<in> set sensitive_intents"
    "\<not> s_is_verified s"
  shows "generate_response T d now sid msg intent s ents =
           Inr ((reply verification_request sid)
                  \<lparr>requires_verification := Some True, next_intent := Some intent\<rparr>, s, d)"
proof -
  from assms(2) have "intent \<noteq> ''greeting''" "intent \<noteq> ''escalation''"
    by (auto simp: sensitive_intents_def)
  with assms show ?thesis by (simp add: generate_response_def Let_def)
qed

text \<open>
  Claim C3. A message whose classified intent is sensitive, processed in a live session
  that is not verified, is answered with the request for verification, which records the
  intent as \<open>next_intent\<close>; the response is this fixed text for every store and every
  tool, names no tool and no customer, and the customer table and the flag of the
  session stay as they were. The clock is assumed not to run backwards.
\<close>

theorem C3_sensitive_needs_verification:
  assumes "lookup_session A sid = Some s" "\<not> is_session_expired now s" "\<not> s_is_verified s"
    and "\<forall>c \<in> set (conversations (db A)). c_created_at c \<le> now"
    and "primary_intent (analyze_intent msg) \<in> set sensitive_intents"
  shows "fst (process_message T A now sid msg) =
           (reply verification_request sid)
             \<lparr>requires_verification := Some True,
              next_intent := Some (primary_intent (analyze_intent msg))\<rparr> \<and>
         customers (db (snd (process_message T A now sid msg))) = customers (db A) \<and>
         map_option s_is_verified (active_sessions (snd (process_message T A now sid msg)) sid)
           = Some False"
proof -
  let ?d1 = "update_session_activity (db A) now sid"
  let ?d2 = "save_conversation_message ?d1 now sid ''user'' msg (s_customer_id s) None"
  let ?s1 = "s\<lparr>s_last_activity := Some now,
               conversation_history := get_conversation_history ?d2 now sid\<rparr>"
  let ?intent = "primary_intent (analyze_intent msg)"
  let ?ents = "entities (analyze_intent msg)"
  let ?r = "(reply verification_request sid)
             \<lparr>requires_verification := Some True, next_intent := Some ?intent\<rparr>"
  have "\<forall>c \<in> set (conversations ?d1). c_created_at c \<le> now"
    using assms(4) by (simp add: update_session_activity_def)
  then have "conversation_history ?s1 = get_conversation_history ?d1 now sid
               @ [\<lparr>t_role = ''user'', t_message = msg, t_timestamp = now\<rparr>]"
    by (simp add: history_ends_with_message)
  then have o: "context_override ?s1 msg ?intent ?ents = ?intent"
    by (rule no_override_after_user_turn)
  have n: "\<not> s_is_verified ?s1" using assms(3) by simp
  have g: "generate_response T ?d2 now sid msg ?intent ?s1 ?ents = Inr (?r, ?s1, ?d2)"
    by (rule sensitive_unverified_response [OF o assms(5) n])
  have p: "process_message T A now sid msg =
     (?r, \<lparr>active_sessions = (active_sessions A)(sid \<mapsto> ?s1),
           db = save_conversation_message ?d2 now sid ''assistant'' (r_response ?r)
                  (s_customer_id ?s1)
                  (Some \<lparr>m_intent = ?intent,
                         m_tools_used = (case tools_used ?r of None \<Rightarrow> [] | Some u \<Rightarrow> u),
                         m_requires_verification =
                           (case requires_verification ?r of None \<Rightarrow> False | Some b \<Rightarrow> b),
                         m_verified = (case r_verified ?r of None \<Rightarrow> False | Some b \<Rightarrow> b)\<rparr>)\<rparr>)"
    using assms(1,2) g by (simp add: process_message_def Let_def)
  show ?thesis
    using assms(3)
    by (simp add: p save_conversation_message_def update_session_activity_def)
qed

theorem C3_sensitive_needs_verification_witness:
  "lookup_session (create_session test_agent 0 ''s1'' None) ''s1'' = Some fresh_session \<and>
   \<not> is_session_expired 60 fresh_session \<and> \<not> s_is_verified fresh_session \<and>
   conversations (db (create_session test_agent 0 ''s1'' None)) = [] \<and>
   primary_intent (analyze_intent ''Show me my recent transactions'') = ''transaction_history'' \<and>
   ''transaction_history'' \<in> set sensitive_intents \<and>
   fst (process_message offline_tools (create_session test_agent 0 ''s1'' None) 60 ''s1''
          ''Show me my recent transactions'') =
     (reply verification_request ''s1'')
       \<lparr>requires_verification := Some True, next_intent := Some ''transaction_history''\<rparr>"
proof -
  let ?A = "create_session test_agent 0 ''s1'' None"
  have l: "lookup_session ?A ''s1'' = Some fresh_session" by code_simp
  have e: "\<not> is_session_expired 60 fresh_session" by code_simp
  have v: "\<not> s_is_verified fresh_session" by code_simp
  have c0: "conversations (db ?A) = []" by code_simp
  then have c: "\<forall>c \<in> set (conversations (db ?A)). c_created_at c \<le> 60" by simp
  have i: "primary_intent (analyze_intent ''Show me my recent transactions'') = ''transaction_history''"
    by code_simp
  have m: "''transaction_history'' \<in> set sensitive_intents" by code_simp
  from m i have m': "primary_intent (analyze_intent ''Show me my recent transactions'')
                       \<in> set sensitive_intents" by simp
  from C3_sensitive_needs_verification [OF l e v c m', of offline_tools] i
  have "fst (process_message offline_tools ?A 60 ''s1'' ''Show me my recent transactions'') =
     (reply verification_request ''s1'')
       \<lparr>requires_verification := Some True, next_intent := Some ''transaction_history''\<rparr>"
    by simp
  with l e v c0 i m show ?thesis by blast
qed

end
